theory Spec2Isabelle
  imports Complex_Main
begin

section \<open>Errors and completions\<close>

text \<open>
  The Python exceptions the two modules can raise, as values.  The specification calls
  the \<open>ValueError\<close> of the constructors a \<open>ConfigurationError\<close> and the
  \<open>AssertionError\<close> of the iterator and of the reward nets a \<open>DataContractViolation\<close>.
  \<open>UnsupportedOperation\<close> is \<open>io.UnsupportedOperation\<close>, which \<open>sys.stdout.fileno()\<close> raises
  when standard output has no file descriptor; in Python it is a subclass of \<open>OSError\<close>
  and of \<open>ValueError\<close>.
\<close>

datatype error =
  ValueError | AssertionError | KeyError | TypeError | AttributeError | RuntimeError
  | ZeroDivisionError | UnsupportedOperation

text \<open>
  How an iteration ends: the generator returns, or an exception propagates, out of the
  generator or out of the loop body of its consumer.
\<close>

datatype completion = Returned | Raised error

section \<open>\<open>bc.py\<close>: \<open>EpochOrBatchIteratorWithProgress\<close>\<close>

text \<open>
  A batch is a \<open>dict\<close>; the iterator reads only \<open>batch["obs"]\<close> and takes its \<open>len\<close>.
  The value under a key is an array of samples along its first axis, here a list.
\<close>

type_synonym 'a batch = "string \<rightharpoonup> 'a list"

text \<open>
  The data loader is an \<open>Iterable\<close>: every \<open>for batch in self.data_loader\<close> asks it for a
  new iterator and draws one pass from it, and two passes need not produce the same
  batches (a shuffling loader).  A pass is what the calls of \<open>next\<close> on that iterator give:
  \<open>p i\<close> is the result of call \<open>i\<close>, a batch, or \<open>None\<close> for \<open>StopIteration\<close>.  The pass ends
  at the first \<open>None\<close>; it never ends when there is none, as for \<open>itertools.repeat(batch)\<close>.
  After its first batch the pass is \<open>after_batch p\<close>.
\<close>

type_synonym 'a pass = "nat \<Rightarrow> 'a batch option"

definition after_batch :: "'a pass \<Rightarrow> 'a pass" where
  "after_batch p i = p (Suc i)"

text \<open>
  A loader is the sequence of its passes, \<open>dl 0\<close> the next one.  After a pass the loader is
  \<open>after_pass dl\<close>.
\<close>

type_synonym 'a loader = "nat \<Rightarrow> 'a pass"

definition after_pass :: "'a loader \<Rightarrow> 'a loader" where
  "after_pass dl k = dl (Suc k)"

text \<open>The \<open>stats\<close> dict yielded with each batch, with its three keys in order.\<close>

type_synonym stats = "(string \<times> int) list"

text \<open>
  What an iteration does that a caller can observe: the passes it begins (\<open>NewPass\<close>:
  the \<open>for\<close> statement asks the data loader for an iterator), the pairs it yields, the
  callbacks it calls (a callback is named by a value of type \<open>'cb\<close> and is taken to
  return normally), and the calls on the \<open>tqdm\<close> display.  \<open>SetDescription b bt e et\<close>
  stands for the description \<open>batch: b/bt  epoch: e/et\<close>, a suffix \<open>/t\<close> present when its
  target is.
\<close>

datatype ('a, 'cb) event =
    NewPass
  | Yield "'a batch" stats
  | Callback 'cb
  | TqdmNew "int option"
  | SetDescription int "int option" int "int option"
  | TqdmUpdate int
  | TqdmClose

record ('a, 'cb) EpochOrBatchIteratorWithProgress =
  data_loader :: "'a loader"
  use_epochs :: bool
  n_epochs :: "int option"
  n_batches :: "int option"
  use_tqdm :: bool
  on_epoch_end :: "'cb option"
  on_batch_end :: "'cb option"

text \<open>
  \<open>__init__\<close>.  First the two targets are checked, which sets \<open>use_epochs\<close> or raises
  \<open>ValueError\<close>; then the fields are assigned.  \<open>isatty\<close> is the outcome of evaluating
  \<open>os.isatty(sys.stdout.fileno())\<close>: its value, or the exception it raises, which is
  \<open>io.UnsupportedOperation\<close> when standard output has no file descriptor.  The expression
  is evaluated only when \<open>use_tqdm\<close> is \<open>None\<close>, and an exception of it leaves the
  constructor.
\<close>

definition EpochOrBatchIteratorWithProgress_init ::
  "error + bool \<Rightarrow> 'a loader \<Rightarrow> int option \<Rightarrow> int option \<Rightarrow> bool option \<Rightarrow> 'cb option
    \<Rightarrow> 'cb option \<Rightarrow> error + ('a, 'cb) EpochOrBatchIteratorWithProgress" where
  "EpochOrBatchIteratorWithProgress_init isatty dl ne nb tq oe ob =
     (case (if ne \<noteq> None \<and> nb = None then Inr True
            else if ne = None \<and> nb \<noteq> None then Inr False
            else Inl ValueError) of
        Inl e \<Rightarrow> Inl e
      | Inr ue \<Rightarrow>
          (case (case tq of None \<Rightarrow> isatty | Some u \<Rightarrow> Inr u) of
             Inl e \<Rightarrow> Inl e
           | Inr u \<Rightarrow>
               Inr \<lparr>data_loader = dl, use_epochs = ue, n_epochs = ne, n_batches = nb,
                    use_tqdm = u, on_epoch_end = oe, on_batch_end = ob\<rparr>))"

text \<open>The local variables of \<open>__iter__\<close> that the loop updates.\<close>

record locals =
  samples_so_far :: int
  epoch_num :: int
  batch_num :: int
  got_data_on_epoch :: bool

text \<open>
  The closure \<open>update_desc\<close>, called only where \<open>display\<close> is not \<open>None\<close>, that is when
  \<open>use_tqdm\<close> holds; it reads the current \<open>batch_num\<close> and \<open>epoch_num\<close>.
\<close>

definition update_desc ::
  "('a, 'cb) EpochOrBatchIteratorWithProgress \<Rightarrow> locals \<Rightarrow> ('a, 'cb) event list" where
  "update_desc self l =
     (if use_tqdm self then
        [SetDescription (batch_num l) (if use_epochs self then None else n_batches self)
           (epoch_num l) (if use_epochs self then n_epochs self else None)]
      else [])"

text \<open>
  Calling a callback that may be \<open>None\<close>, and putting events in front of the events of
  what follows.
\<close>

definition call :: "'cb option \<Rightarrow> ('a, 'cb) event list" where
  "call cb = (case cb of None \<Rightarrow> [] | Some f \<Rightarrow> [Callback f])"

definition emit :: "'e list \<Rightarrow> 'e list \<times> 'r \<Rightarrow> 'e list \<times> 'r" where
  "emit evs r = (evs @ fst r, snd r)"

text \<open>
  \<open>__iter__\<close> is a generator: it runs only as its consumer, a \<open>for\<close> statement, asks for
  the next pair.  At \<open>yield\<close> the pair goes to the body of that \<open>for\<close> statement; when the
  body ends normally the generator is resumed after the \<open>yield\<close>, and when the body raises,
  the exception leaves the consumer's loop and the generator is not resumed.  The body is
  a function of the consumer's state of type \<open>'c\<close>, the batch and the stats: it gives the
  state after it and the exception if it raises.
\<close>

type_synonym ('a, 'c) consumer = "'c \<Rightarrow> 'a batch \<Rightarrow> stats \<Rightarrow> 'c \<times> error option"

subsection \<open>The two loops\<close>

text \<open>
  The \<open>for batch in self.data_loader\<close> loop over one pass \<open>p\<close>, from the locals \<open>l\<close> and the
  consumer's state \<open>c\<close>.  The result is the events, the consumer's state, and either the
  locals at the end of the pass (\<open>Inl\<close>) or the way the iteration ended inside the pass
  (\<open>Inr\<close>).  Comparing an \<open>int\<close> with \<open>None\<close> is a \<open>TypeError\<close>.  A pass may never end, so
  the loop is a partial function: the result \<open>None\<close> stands for a loop that never ends.
\<close>

partial_function (option) for_batch_in ::
  "('a, 'cb) EpochOrBatchIteratorWithProgress \<Rightarrow> ('a, 'c) consumer \<Rightarrow> 'a pass \<Rightarrow> locals \<Rightarrow> 'c
    \<Rightarrow> (('a, 'cb) event list \<times> 'c \<times> (locals + completion)) option" where
  "for_batch_in self body p l c =
     (case p 0 of
        None \<Rightarrow> Some ([], c, Inl l)
      | Some batch \<Rightarrow>
          (let l1 = l\<lparr>got_data_on_epoch := True, batch_num := batch_num l + 1\<rparr> in
           case batch ''obs'' of
             None \<Rightarrow> Some ([], c, Inr (Raised KeyError))
           | Some obs \<Rightarrow>
               (let batch_size = int (length obs) in
                if \<not> batch_size > 0 then Some ([], c, Inr (Raised AssertionError))
                else
                  (let l2 = l1\<lparr>samples_so_far := samples_so_far l1 + batch_size\<rparr>;
                       stats = [(''epoch_num'', epoch_num l2), (''batch_num'', batch_num l2),
                                (''samples_so_far'', samples_so_far l2)];
                       consumed = body c batch stats
                   in
                     (case snd consumed of
                        Some e \<Rightarrow> Some ([Yield batch stats], fst consumed, Inr (Raised e))
                      | None \<Rightarrow>
                          (let evs = Yield batch stats # call (on_batch_end self) in
                           if \<not> use_epochs self then
                             (let evs' = evs @ update_desc self l2
                                           @ (if use_tqdm self then [TqdmUpdate 1] else [])
                              in (case n_batches self of
                                    None \<Rightarrow> Some (evs', fst consumed, Inr (Raised TypeError))
                                  | Some n \<Rightarrow>
                                      if batch_num l2 \<ge> n
                                      then Some (evs', fst consumed, Inr Returned)
                                      else Option.bind
                                             (for_batch_in self body (after_batch p) l2
                                                (fst consumed))
                                             (\<lambda>r. Some (emit evs' r))))
                           else Option.bind
                                  (for_batch_in self body (after_batch p) l2 (fst consumed))
                                  (\<lambda>r. Some (emit evs r))))))))"

text \<open>
  The \<open>while True\<close> loop, from the loader \<open>dl\<close>, the locals and the consumer's state.  Each
  turn updates the display, begins a pass and runs the \<open>for\<close> loop over it; the loop goes on
  to another turn only while the counter of its mode is below the target.  It never ends
  when one of its passes never ends.
\<close>

partial_function (option) while_True ::
  "('a, 'cb) EpochOrBatchIteratorWithProgress \<Rightarrow> ('a, 'c) consumer \<Rightarrow> 'a loader \<Rightarrow> locals \<Rightarrow> 'c
    \<Rightarrow> (('a, 'cb) event list \<times> 'c \<times> completion) option" where
  "while_True self body dl l c =
     Option.bind (for_batch_in self body (dl 0) (l\<lparr>got_data_on_epoch := False\<rparr>) c)
       (\<lambda>pass_run.
          Option.bind
            (case pass_run of
               (evs, c1, Inr k) \<Rightarrow> Some (evs, c1, k)
             | (evs, c1, Inl l1) \<Rightarrow>
                 if \<not> got_data_on_epoch l1 then Some (evs, c1, Raised AssertionError)
                 else
                   (let l2 = l1\<lparr>epoch_num := epoch_num l1 + 1\<rparr>;
                        evs1 = evs @ call (on_epoch_end self)
                    in
                      if use_epochs self then
                        (let evs2 = evs1 @ update_desc self l2
                                      @ (if use_tqdm self then [TqdmUpdate 1] else [])
                         in (case n_epochs self of
                               None \<Rightarrow> Some (evs2, c1, Raised TypeError)
                             | Some n \<Rightarrow>
                                 if epoch_num l2 \<ge> n then Some (evs2, c1, Returned)
                                 else Option.bind (while_True self body (after_pass dl) l2 c1)
                                        (\<lambda>r. Some (emit evs2 r))))
                      else Option.bind (while_True self body (after_pass dl) l2 c1)
                             (\<lambda>r. Some (emit evs1 r))))
            (\<lambda>r. Some (emit (update_desc self l @ [NewPass]) r)))"

text \<open>
  \<open>__iter__\<close> under a consumer.  The locals start at zero; \<open>got_data_on_epoch\<close> is assigned
  at the start of every turn of the loop before it is read, so its first value does not
  matter.  The \<open>finally\<close> clause closes the display however the body ends.
\<close>

definition initial_locals :: locals where
  "initial_locals = \<lparr>samples_so_far = 0, epoch_num = 0, batch_num = 0, got_data_on_epoch = False\<rparr>"

definition EpochOrBatchIteratorWithProgress_iter_with ::
  "('a, 'cb) EpochOrBatchIteratorWithProgress \<Rightarrow> ('a, 'c) consumer \<Rightarrow> 'c
    \<Rightarrow> (('a, 'cb) event list \<times> 'c \<times> completion) option" where
  "EpochOrBatchIteratorWithProgress_iter_with self body c =
     Option.bind (while_True self body (data_loader self) initial_locals c)
       (\<lambda>r. Some ((if use_tqdm self
                    then [TqdmNew (if use_epochs self then n_epochs self else n_batches self)]
                    else [])
                   @ fst r @ (if use_tqdm self then [TqdmClose] else []),
                   snd r))"

text \<open>
  The consumer that takes every pair and goes on, as \<open>list(it)\<close> does, and the iteration
  under it: the events and the way it ends, or \<open>None\<close> when it never ends.
\<close>

definition exhaust :: "('a, 'c) consumer" where
  "exhaust c batch stats = (c, None)"

definition EpochOrBatchIteratorWithProgress_iter ::
  "('a, 'cb) EpochOrBatchIteratorWithProgress \<Rightarrow> (('a, 'cb) event list \<times> completion) option" where
  "EpochOrBatchIteratorWithProgress_iter self =
     map_option (\<lambda>r. (fst r, snd (snd r)))
       (EpochOrBatchIteratorWithProgress_iter_with self exhaust ())"

text \<open>The \<open>(batch, stats)\<close> pairs among the events, in order.\<close>

fun yielded :: "('a, 'cb) event list \<Rightarrow> ('a batch \<times> stats) list" where
  "yielded [] = []"
| "yielded (Yield b s # evs) = (b, s) # yielded evs"
| "yielded (_ # evs) = yielded evs"

section \<open>\<open>reward_nets.py\<close>\<close>

text \<open>
  A batch of states, actions or next states is a list along the batch axis, so that
  \<open>state.shape[:1]\<close> is \<open>(length state,)\<close>.  Rewards, potentials and the \<open>done\<close> flags are
  one-dimensional tensors, lists of numbers; the arithmetic of \<open>float32\<close> is taken to be
  that of the reals (no rounding, no \<open>inf\<close>, no \<open>nan\<close>).
\<close>

type_synonym tensor1 = "real list"

text \<open>
  An elementwise binary operation on two one-dimensional tensors, with PyTorch's
  broadcasting: the sizes are equal or one of them is 1, else a \<open>RuntimeError\<close>.
\<close>

definition broadcast :: "(real \<Rightarrow> real \<Rightarrow> real) \<Rightarrow> tensor1 \<Rightarrow> tensor1 \<Rightarrow> error + tensor1" where
  "broadcast f xs ys =
     (if length xs = length ys then Inr (map2 f xs ys)
      else if length xs = 1 then Inr (map (f (hd xs)) ys)
      else if length ys = 1 then Inr (map (\<lambda>x. f x (hd ys)) xs)
      else Inl RuntimeError)"

text \<open>What \<open>RewardNet.__init__\<close> stores.\<close>

record 'sp RewardNet =
  observation_space :: 'sp
  action_space :: 'sp
  normalize_images :: bool

text \<open>
  An instance of a concrete subclass of \<open>RewardNet\<close>, as a wrapper holds it: the attributes
  and the \<open>forward\<close> the subclass implements, which may raise.
\<close>

record ('s, 'a, 'sp) ConcreteRewardNet = "'sp RewardNet" +
  forward :: "'s list \<Rightarrow> 'a list \<Rightarrow> 's list \<Rightarrow> tensor1 \<Rightarrow> error + tensor1"

record ('s, 'a, 'sp) RewardNetWrapper = "'sp RewardNet" +
  base :: "('s, 'a, 'sp) ConcreteRewardNet"

definition RewardNetWrapper_init ::
  "'sp \<Rightarrow> 'sp \<Rightarrow> ('s, 'a, 'sp) ConcreteRewardNet \<Rightarrow> bool \<Rightarrow> ('s, 'a, 'sp) RewardNetWrapper" where
  "RewardNetWrapper_init obs_space act_space b ni =
     \<lparr>observation_space = obs_space, action_space = act_space, normalize_images = ni, base = b\<rparr>"

text \<open>
  The functions of \<open>stable_baselines3.common.preprocessing\<close> and of the tensor library
  that the two modules call, as parameters.  \<open>preprocess_obs\<close> is applied to observation
  and to action tensors, which have different types here, so it comes twice.
\<close>

record ('s, 'a, 'sp) preprocessing =
  preprocess_obs :: "'s list \<Rightarrow> 'sp \<Rightarrow> bool \<Rightarrow> 's list"
  preprocess_act :: "'a list \<Rightarrow> 'sp \<Rightarrow> bool \<Rightarrow> 'a list"
  get_flattened_obs_dim :: "'sp \<Rightarrow> int"
  is_image_space :: "'sp \<Rightarrow> bool"
  shape :: "'s list \<Rightarrow> nat list"

text \<open>\<open>RewardNet.preprocess\<close>: the raw \<open>done\<close> array is cast to \<open>float32\<close>.\<close>

definition RewardNet_preprocess ::
  "('s, 'a, 'sp) preprocessing \<Rightarrow> ('sp, 'z) RewardNet_scheme
    \<Rightarrow> 's list \<Rightarrow> 'a list \<Rightarrow> 's list \<Rightarrow> bool list
    \<Rightarrow> error + ('s list \<times> 'a list \<times> 's list \<times> tensor1)" where
  "RewardNet_preprocess pp self state action next_state done =
     (let state_th = preprocess_obs pp state (observation_space self) (normalize_images self);
          action_th = preprocess_act pp action (action_space self) (normalize_images self);
          next_state_th = preprocess_obs pp next_state (observation_space self) (normalize_images self);
          done_th = map (\<lambda>d. if d then 1 else 0) done;
          n_gen = length state_th
      in if shape pp state_th \<noteq> shape pp next_state_th then Inl AssertionError
         else if length action_th \<noteq> n_gen then Inl AssertionError
         else Inr (state_th, action_th, next_state_th, done_th))"

text \<open>\<open>RewardNet.predict\<close>, on an instance with its \<open>forward\<close>.\<close>

definition RewardNet_predict ::
  "('s, 'a, 'sp) preprocessing \<Rightarrow> ('s, 'a, 'sp, 'z) ConcreteRewardNet_scheme
    \<Rightarrow> 's list \<Rightarrow> 'a list \<Rightarrow> 's list \<Rightarrow> bool list \<Rightarrow> error + tensor1" where
  "RewardNet_predict pp self state action next_state done =
     (case RewardNet_preprocess pp self state action next_state done of
        Inl e \<Rightarrow> Inl e
      | Inr (state_th, action_th, next_state_th, done_th) \<Rightarrow>
          (case forward self state_th action_th next_state_th done_th of
             Inl e \<Rightarrow> Inl e
           | Inr rew \<Rightarrow> if length rew = length state then Inr rew else Inl AssertionError))"

subsection \<open>\<open>ShapedRewardNet\<close>\<close>

text \<open>
  \<open>potential\<close> is the callable followed by \<open>.flatten()\<close>: it maps a batch of states to the
  one-dimensional tensor of their potentials.  In \<open>forward\<close> the flags \<open>done\<close> are numbers
  already, and \<open>done.float()\<close> leaves them as they are.
\<close>

record ('s, 'a, 'sp) ShapedRewardNet = "('s, 'a, 'sp) RewardNetWrapper" +
  potential :: "'s list \<Rightarrow> tensor1"
  discount_factor :: real

definition ShapedRewardNet_init ::
  "'sp \<Rightarrow> 'sp \<Rightarrow> ('s, 'a, 'sp) ConcreteRewardNet \<Rightarrow> ('s list \<Rightarrow> tensor1) \<Rightarrow> real \<Rightarrow> bool
    \<Rightarrow> ('s, 'a, 'sp) ShapedRewardNet" where
  "ShapedRewardNet_init obs_space act_space b pot gamma ni =
     \<lparr>observation_space = obs_space, action_space = act_space, normalize_images = ni, base = b,
      potential = pot, discount_factor = gamma\<rparr>"

definition ShapedRewardNet_forward ::
  "('s, 'a, 'sp) ShapedRewardNet \<Rightarrow> 's list \<Rightarrow> 'a list \<Rightarrow> 's list \<Rightarrow> tensor1 \<Rightarrow> error + tensor1" where
  "ShapedRewardNet_forward self state action next_state done =
     (case forward (base self) state action next_state done of
        Inl e \<Rightarrow> Inl e
      | Inr base_reward_net_output \<Rightarrow>
          let new_shaping_output = potential self next_state;
              old_shaping_output = potential self state
          in case broadcast (*) (map (\<lambda>d. 1 - d) done) new_shaping_output of
               Inl e \<Rightarrow> Inl e
             | Inr new_shaping \<Rightarrow>
                 (case broadcast (+) base_reward_net_output
                         (map (\<lambda>x. discount_factor self * x) new_shaping) of
                    Inl e \<Rightarrow> Inl e
                  | Inr s \<Rightarrow>
                      (case broadcast (-) s old_shaping_output of
                         Inl e \<Rightarrow> Inl e
                       | Inr final_rew \<Rightarrow>
                           if length final_rew = length state then Inr final_rew
                           else Inl AssertionError)))"

subsection \<open>\<open>NormalizedRewardNet\<close>\<close>

text \<open>
  \<open>rew_normalize_layer\<close> is \<open>rew_normalize_class(1)\<close>, or \<open>None\<close> when the class is falsy;
  the layer is taken as the function it computes.
\<close>

record ('s, 'a, 'sp) NormalizedRewardNet = "('s, 'a, 'sp) RewardNetWrapper" +
  rew_normalize_layer :: "(tensor1 \<Rightarrow> tensor1) option"

definition NormalizedRewardNet_init ::
  "'sp \<Rightarrow> 'sp \<Rightarrow> ('s, 'a, 'sp) ConcreteRewardNet \<Rightarrow> (int \<Rightarrow> tensor1 \<Rightarrow> tensor1) option \<Rightarrow> bool
    \<Rightarrow> ('s, 'a, 'sp) NormalizedRewardNet" where
  "NormalizedRewardNet_init obs_space act_space b rew_normalize_class ni =
     \<lparr>observation_space = obs_space, action_space = act_space, normalize_images = ni, base = b,
      rew_normalize_layer = (case rew_normalize_class of None \<Rightarrow> None | Some c \<Rightarrow> Some (c 1))\<rparr>"

definition NormalizedRewardNet_forward ::
  "('s, 'a, 'sp) NormalizedRewardNet \<Rightarrow> 's list \<Rightarrow> 'a list \<Rightarrow> 's list \<Rightarrow> tensor1 \<Rightarrow> error + tensor1" where
  "NormalizedRewardNet_forward self state action next_state done =
     forward (base self) state action next_state done"

text \<open>
  \<open>predict_processed\<close>: the base net's \<open>predict\<close>, then the normalization layer; calling
  the layer when it is \<open>None\<close> is a \<open>TypeError\<close>.
\<close>

definition NormalizedRewardNet_predict_processed ::
  "('s, 'a, 'sp) preprocessing \<Rightarrow> ('s, 'a, 'sp) NormalizedRewardNet
    \<Rightarrow> 's list \<Rightarrow> 'a list \<Rightarrow> 's list \<Rightarrow> bool list \<Rightarrow> error + tensor1" where
  "NormalizedRewardNet_predict_processed pp self state action next_state done =
     (case RewardNet_predict pp (base self) state action next_state done of
        Inl e \<Rightarrow> Inl e
      | Inr rew \<Rightarrow>
          (case rew_normalize_layer self of
             None \<Rightarrow> Inl TypeError
           | Some layer \<Rightarrow>
               let rew' = layer rew
               in if length rew' = length state then Inr rew' else Inl AssertionError))"

subsection \<open>\<open>BasicRewardNet\<close>\<close>

text \<open>The values of keyword arguments handed on to \<open>build_mlp\<close>.\<close>

datatype kwarg = IntV int | BoolV bool | TupleV "int list" | ObjV string

record ('sp, 'mlp) BasicRewardNet = "'sp RewardNet" +
  use_state :: bool
  use_action :: bool
  use_next_state :: bool
  use_done :: bool
  mlp :: 'mlp

text \<open>
  The dictionary \<open>full_build_mlp_kwargs\<close> that \<open>__init__\<close> passes to \<open>build_mlp\<close>;
  \<open>dict.update\<close> is \<open>++\<close>.  \<open>gfd\<close> is \<open>preprocessing.get_flattened_obs_dim\<close>.
\<close>

definition full_build_mlp_kwargs ::
  "('sp \<Rightarrow> int) \<Rightarrow> 'sp \<Rightarrow> 'sp \<Rightarrow> bool \<Rightarrow> bool \<Rightarrow> bool \<Rightarrow> bool \<Rightarrow> (string \<rightharpoonup> kwarg)
    \<Rightarrow> (string \<rightharpoonup> kwarg)" where
  "full_build_mlp_kwargs gfd obs_space act_space us ua un ud kwargs =
     (let combined_size = 0;
          combined_size = (if us then combined_size + gfd obs_space else combined_size);
          combined_size = (if ua then combined_size + gfd act_space else combined_size);
          combined_size = (if un then combined_size + gfd obs_space else combined_size);
          combined_size = (if ud then combined_size + 1 else combined_size)
      in [''hid_sizes'' \<mapsto> TupleV [32, 32]] ++ kwargs ++
         [''in_size'' \<mapsto> IntV combined_size, ''out_size'' \<mapsto> IntV 1,
          ''squeeze_output'' \<mapsto> BoolV True])"

text \<open>
  \<open>__init__\<close>.  \<open>build_mlp\<close> (of \<open>imitation.util.networks\<close>) is a parameter: it builds
  the network from the keyword arguments, or raises.
\<close>

definition BasicRewardNet_init ::
  "((string \<rightharpoonup> kwarg) \<Rightarrow> error + 'mlp) \<Rightarrow> ('sp \<Rightarrow> int) \<Rightarrow> 'sp \<Rightarrow> 'sp
    \<Rightarrow> bool \<Rightarrow> bool \<Rightarrow> bool \<Rightarrow> bool \<Rightarrow> (string \<rightharpoonup> kwarg)
    \<Rightarrow> error + ('sp, 'mlp) BasicRewardNet" where
  "BasicRewardNet_init build_mlp gfd obs_space act_space us ua un ud kwargs =
     (case build_mlp (full_build_mlp_kwargs gfd obs_space act_space us ua un ud kwargs) of
        Inl e \<Rightarrow> Inl e
      | Inr m \<Rightarrow>
          Inr \<lparr>observation_space = obs_space, action_space = act_space, normalize_images = True,
               use_state = us, use_action = ua, use_next_state = un, use_done = ud, mlp = m\<rparr>)"

section \<open>\<open>bc.py\<close>: the \<open>BC\<close> trainer\<close>

text \<open>\<open>ConstantLRSchedule\<close>: a callable that returns the learning rate it was built with.\<close>

record ConstantLRSchedule =
  lr :: real

definition ConstantLRSchedule_init :: "real \<Rightarrow> ConstantLRSchedule" where
  "ConstantLRSchedule_init r = \<lparr>lr = r\<rparr>"

definition ConstantLRSchedule_call :: "ConstantLRSchedule \<Rightarrow> 'x \<Rightarrow> real" where
  "ConstantLRSchedule_call self x = lr self"

text \<open>\<open>sys.float_info.max\<close>, the largest finite double.\<close>

definition float_info_max :: real where
  "float_info_max = (2 ^ 53 - 1) * 2 ^ 971"

text \<open>
  What the trainer takes from PyTorch, Stable Baselines3 and \<open>imitation.util\<close>, as
  parameters.  A policy of type \<open>'p\<close> carries its parameters and their gradients, each
  parameter tensor flattened; \<open>evaluate_actions\<close> gives the log-probabilities and the
  entropies (the values it also returns are not used).  \<open>optimize\<close> stands for
  \<open>zero_grad()\<close>, \<open>loss.backward()\<close> and \<open>step()\<close>: from the optimizer, the loss as a function
  of the policy, and the policy, it gives the optimizer and the policy after the step.
\<close>

record ('a, 'sp, 'p, 'o, 'sch, 'dev, 'tr, 'cb) torch =
  get_device :: "'dev \<Rightarrow> 'dev"
  to_device :: "'p \<Rightarrow> 'dev \<Rightarrow> 'p"
  policy_train :: "'p \<Rightarrow> 'p"
  parameters :: "'p \<Rightarrow> real list list"
  grads :: "'p \<Rightarrow> real list option list"
  evaluate_actions :: "'p \<Rightarrow> 'a list \<Rightarrow> 'a list \<Rightarrow> tensor1 \<times> tensor1"
  optimize :: "'o \<Rightarrow> ('p \<Rightarrow> real) \<Rightarrow> 'p \<Rightarrow> 'o \<times> 'p"
  optim_lr_gmean :: "'o \<Rightarrow> real"
  scheduler_step :: "'sch \<Rightarrow> 'cb"
  join_callbacks :: "'cb option \<Rightarrow> 'cb option \<Rightarrow> 'cb option"
  DataLoader :: "'tr \<Rightarrow> bool \<Rightarrow> int \<Rightarrow> 'a loader"
  is_Box :: "'sp \<Rightarrow> bool"
  times :: "'a list \<Rightarrow> real \<Rightarrow> 'a list"
  sb3_preprocessing :: "('a, 'a, 'sp) preprocessing"

text \<open>The values in the policy's keyword arguments.\<close>

datatype ('sp, 'kw) policy_kwarg = Space 'sp | LrSchedule ConstantLRSchedule | Other 'kw

text \<open>
  The trainer.  The two spaces are \<open>self.observation_space\<close> and \<open>self.action_space\<close>;
  their fields are prefixed because the reward nets have fields of the same names.
\<close>

record ('a, 'sp, 'kw, 'p, 'o, 'sch, 'dev, 'cb) BC =
  bc_action_space :: 'sp
  bc_observation_space :: 'sp
  policy_class :: "(string \<rightharpoonup> ('sp, 'kw) policy_kwarg) \<Rightarrow> error + 'p"
  device :: 'dev
  policy_kwargs :: "string \<rightharpoonup> ('sp, 'kw) policy_kwarg"
  policy :: 'p
  optimizer :: 'o
  lr_scheduler :: "'sch option"
  epoch_end_step_callback :: "'cb option"
  expert_data_loader :: "'a loader option"
  ent_weight :: real
  l2_weight :: real
  augmentation_fn :: "'a list \<Rightarrow> 'a list"

datatype ('tr, 'a) expert_data = Transitions 'tr | Loader "'a loader"

definition DEFAULT_BATCH_SIZE :: int where
  "DEFAULT_BATCH_SIZE = 32"

text \<open>The constructors that \<open>__init__\<close> and \<open>set_expert_data_loader\<close> call, as they are called.\<close>

datatype construction = CallPolicyClass | CallOptimizerCls | CallLrSchedulerCls | CallDataLoader

definition set_expert_data_loader ::
  "('a, 'sp, 'p, 'o, 'sch, 'dev, 'tr, 'cb) torch \<Rightarrow> ('a, 'sp, 'kw, 'p, 'o, 'sch, 'dev, 'cb) BC
    \<Rightarrow> ('tr, 'a) expert_data \<Rightarrow> construction list \<times> ('a, 'sp, 'kw, 'p, 'o, 'sch, 'dev, 'cb) BC" where
  "set_expert_data_loader env self expert_data =
     (case expert_data of
        Transitions tr \<Rightarrow>
          ([CallDataLoader],
           self\<lparr>expert_data_loader := Some (DataLoader env tr True DEFAULT_BATCH_SIZE)\<rparr>)
      | Loader dl \<Rightarrow> ([], self\<lparr>expert_data_loader := Some dl\<rparr>))"

text \<open>
  \<open>BC.__init__\<close>.  The result is the constructor calls made, in order, and the trainer or
  the exception.  \<open>optimizer_kwargs\<close> and \<open>lr_scheduler_kwargs\<close> are dictionaries, here
  association lists (a non-empty dictionary is truthy); \<open>**None\<close> is a \<open>TypeError\<close>.
  \<open>normalize_images_arg\<close> is the constructor's parameter \<open>normalize_images\<close>.
\<close>

definition BC_init ::
  "('a, 'sp, 'p, 'o, 'sch, 'dev, 'tr, 'cb) torch \<Rightarrow> 'sp \<Rightarrow> 'sp
    \<Rightarrow> ((string \<rightharpoonup> ('sp, 'kw) policy_kwarg) \<Rightarrow> error + 'p)
    \<Rightarrow> (string \<rightharpoonup> ('sp, 'kw) policy_kwarg) option
    \<Rightarrow> ('tr, 'a) expert_data option
    \<Rightarrow> (real list list \<Rightarrow> (string \<times> 'kw) list \<Rightarrow> error + 'o)
    \<Rightarrow> (string \<times> 'kw) list option
    \<Rightarrow> ('o \<Rightarrow> (string \<times> 'kw) list \<Rightarrow> error + 'sch) option
    \<Rightarrow> (string \<times> 'kw) list option
    \<Rightarrow> real \<Rightarrow> real \<Rightarrow> ('a list \<Rightarrow> 'a list) option \<Rightarrow> bool \<Rightarrow> 'dev
    \<Rightarrow> construction list \<times> (error + ('a, 'sp, 'kw, 'p, 'o, 'sch, 'dev, 'cb) BC)" where
  "BC_init env obs_space act_space policy_cls policy_kws expert_data optimizer_cls
       optimizer_kwargs lr_scheduler_cls lr_scheduler_kwargs ent_w l2_w augmentation
       normalize_images_arg dev =
     (if (case optimizer_kwargs of None \<Rightarrow> False
          | Some kw \<Rightarrow> kw \<noteq> [] \<and> ''weight_decay'' \<in> set (map fst kw))
      then ([], Inl ValueError)
      else
        let dev1 = get_device env dev;
            unused_lr_schedule = ConstantLRSchedule_init float_info_max;
            kws = [''observation_space'' \<mapsto> Space obs_space, ''action_space'' \<mapsto> Space act_space,
                   ''lr_schedule'' \<mapsto> LrSchedule unused_lr_schedule]
                  ++ (case policy_kws of None \<Rightarrow> Map.empty | Some k \<Rightarrow> k);
            dev2 = get_device env dev1
        in case policy_cls kws of
             Inl e \<Rightarrow> ([CallPolicyClass], Inl e)
           | Inr p0 \<Rightarrow>
               let p = to_device env p0 dev2;
                   okw = (case optimizer_kwargs of None \<Rightarrow> [] | Some kw \<Rightarrow> kw)
               in case optimizer_cls (parameters env p) okw of
                    Inl e \<Rightarrow> ([CallPolicyClass, CallOptimizerCls], Inl e)
                  | Inr opt \<Rightarrow>
                      (case (case lr_scheduler_cls of
                               None \<Rightarrow> ([], Inr (None, None))
                             | Some cls \<Rightarrow>
                                 (case lr_scheduler_kwargs of
                                    None \<Rightarrow> ([], Inl TypeError)
                                  | Some skw \<Rightarrow>
                                      (case cls opt skw of
                                         Inl e \<Rightarrow> ([CallLrSchedulerCls], Inl e)
                                       | Inr sch \<Rightarrow>
                                           ([CallLrSchedulerCls],
                                            Inr (Some sch, Some (scheduler_step env sch)))))) of
                         (cs, Inl e) \<Rightarrow> ([CallPolicyClass, CallOptimizerCls] @ cs, Inl e)
                       | (cs, Inr (sch, cb)) \<Rightarrow>
                           let self = \<lparr>bc_action_space = act_space, bc_observation_space = obs_space,
                                       policy_class = policy_cls, device = dev2, policy_kwargs = kws,
                                       policy = p, optimizer = opt, lr_scheduler = sch,
                                       epoch_end_step_callback = cb, expert_data_loader = None,
                                       ent_weight = ent_w, l2_weight = l2_w,
                                       augmentation_fn =
                                         (case augmentation of None \<Rightarrow> (\<lambda>x. x) | Some f \<Rightarrow> f)\<rparr>
                           in case expert_data of
                                None \<Rightarrow> ([CallPolicyClass, CallOptimizerCls] @ cs, Inr self)
                              | Some d \<Rightarrow>
                                  let r = set_expert_data_loader env self d
                                  in ([CallPolicyClass, CallOptimizerCls] @ cs @ fst r,
                                      Inr (snd r))))"

subsection \<open>The loss\<close>

text \<open>
  The mean of a tensor.  On an empty tensor PyTorch gives \<open>nan\<close>, which the reals do not
  have; the theorems on the loss take the tensors non-empty.
\<close>

definition mean :: "tensor1 \<Rightarrow> real" where
  "mean xs = sum_list xs / real (length xs)"

text \<open>
  \<open>BC._calculate_loss\<close>.  With no parameter tensor, \<open>sum(l2_norms) / 2\<close> is the Python
  float \<open>0.0\<close>, and \<open>l2_loss_raw.item()\<close> raises \<open>AttributeError\<close> when the statistics are
  gathered.
\<close>

definition BC_calculate_loss ::
  "('a, 'sp, 'p, 'o, 'sch, 'dev, 'tr, 'cb) torch \<Rightarrow> ('a, 'sp, 'kw, 'p, 'o, 'sch, 'dev, 'cb) BC
    \<Rightarrow> 'a list \<Rightarrow> 'a list \<Rightarrow> error + (real \<times> (string \<times> real) list)" where
  "BC_calculate_loss env self obs acts =
     (let (log_probs, entropies) = evaluate_actions env (policy self) obs acts;
          prob_true_act = mean (map exp log_probs);
          log_prob = mean log_probs;
          entropy = mean entropies;
          ent_loss = entropy;
          l2_norms = map (\<lambda>w. sum_list (map (\<lambda>x. x ^ 2) w)) (parameters env (policy self));
          l2_loss_raw = sum_list l2_norms / 2;
          ent_term = - ent_weight self * ent_loss;
          neglogp = - log_prob;
          l2_term = l2_weight self * l2_loss_raw;
          loss = neglogp + ent_term + l2_term
      in if l2_norms = [] then Inl AttributeError
         else Inr (loss,
                   [(''neglogp'', neglogp), (''loss'', loss), (''prob_true_act'', prob_true_act),
                    (''ent_loss_raw'', entropy), (''ent_loss_term'', ent_term),
                    (''l2_loss_raw'', l2_loss_raw), (''l2_loss_term'', l2_term)]))"

text \<open>
  The \<open>loss\<close> tensor alone, as a function of the policy: what \<open>loss.backward()\<close>
  differentiates.
\<close>

definition loss_of ::
  "('a, 'sp, 'p, 'o, 'sch, 'dev, 'tr, 'cb) torch \<Rightarrow> ('a, 'sp, 'kw, 'p, 'o, 'sch, 'dev, 'cb) BC
    \<Rightarrow> 'a list \<Rightarrow> 'a list \<Rightarrow> 'p \<Rightarrow> real" where
  "loss_of env self obs acts pol =
     (let (log_probs, entropies) = evaluate_actions env pol obs acts
      in - mean log_probs + - ent_weight self * mean entropies
         + l2_weight self
           * (sum_list (map (\<lambda>w. sum_list (map (\<lambda>x. x ^ 2) w)) (parameters env pol)) / 2))"

text \<open>
  \<open>BC._calculate_policy_norms\<close> with the default \<open>norm_type = 2\<close>; \<open>th.stack\<close> of an empty
  list raises \<open>RuntimeError\<close>.
\<close>

definition norm2 :: "tensor1 \<Rightarrow> real" where
  "norm2 xs = sqrt (sum_list (map (\<lambda>x. x ^ 2) xs))"

definition BC_calculate_policy_norms ::
  "('a, 'sp, 'p, 'o, 'sch, 'dev, 'tr, 'cb) torch \<Rightarrow> 'p \<Rightarrow> error + (real \<times> real)" where
  "BC_calculate_policy_norms env pol =
     (let gradient_parameters = concat (map (\<lambda>g. case g of None \<Rightarrow> [] | Some x \<Rightarrow> [x]) (grads env pol));
          stacked_gradient_norms = map norm2 gradient_parameters;
          stacked_weight_norms = map norm2 (parameters env pol)
      in if stacked_gradient_norms = [] \<or> stacked_weight_norms = [] then Inl RuntimeError
         else Inr (norm2 stacked_gradient_norms, norm2 stacked_weight_norms))"

subsection \<open>\<open>BC.train\<close>\<close>

text \<open>The calls on the logger.\<close>

datatype log_call = RecordMean string real | Dump int

text \<open>
  The body of the training loop on one batch: the trainer after it, the logger calls, and
  the exception if one is raised.  \<open>batch_num_t\<close> is the \<open>batch_num\<close> of \<open>train\<close>, not the
  iterator's.
\<close>

definition train_batch ::
  "('a, 'sp, 'p, 'o, 'sch, 'dev, 'tr, 'cb) torch \<Rightarrow> ('a, 'sp, 'kw, 'p, 'o, 'sch, 'dev, 'cb) BC
    \<Rightarrow> int \<Rightarrow> int \<Rightarrow> 'a batch
    \<Rightarrow> ('a, 'sp, 'kw, 'p, 'o, 'sch, 'dev, 'cb) BC \<times> log_call list \<times> error option" where
  "train_batch env self log_interval batch_num_t batch =
     (case batch ''acts'' of
        None \<Rightarrow> (self, [], Some KeyError)
      | Some acts_tensor \<Rightarrow>
          (case batch ''obs'' of
             None \<Rightarrow> (self, [], Some KeyError)
           | Some obs0 \<Rightarrow>
               let obs1 = preprocess_obs (sb3_preprocessing env) obs0 (bc_observation_space self) True;
                   obs2 = augmentation_fn self obs1;
                   obs_tensor =
                     (if is_Box env (bc_observation_space self)
                         \<and> is_image_space (sb3_preprocessing env) (bc_observation_space self)
                      then times env obs2 255 else obs2)
               in case BC_calculate_loss env self obs_tensor acts_tensor of
                    Inl e \<Rightarrow> (self, [], Some e)
                  | Inr (loss, stats_dict) \<Rightarrow>
                      let stepped = optimize env (optimizer self)
                                      (loss_of env self obs_tensor acts_tensor) (policy self);
                          self' = self\<lparr>optimizer := fst stepped, policy := snd stepped\<rparr>
                      in case BC_calculate_policy_norms env (policy self') of
                           Inl e \<Rightarrow> (self', [], Some e)
                         | Inr (gradient_norm, weight_norm) \<Rightarrow>
                             let stats_dict' = stats_dict @
                                   [(''grad_norm'', gradient_norm), (''weight_norm'', weight_norm),
                                    (''n_updates'', of_int batch_num_t),
                                    (''batch_size'', real (length obs_tensor)),
                                    (''lr_gmean'', optim_lr_gmean env (optimizer self'))];
                                 logs = map (\<lambda>(k, v). RecordMean k v) stats_dict'
                             in if log_interval = 0 then (self', logs, Some ZeroDivisionError)
                                else (self',
                                      logs @ (if batch_num_t mod log_interval = 0
                                              then [Dump batch_num_t] else []),
                                      None)))"

text \<open>
  The body of the \<open>for\<close> statement of \<open>train\<close> as the consumer of the iterator.  Its state is
  the trainer, the \<open>batch_num\<close> of \<open>train\<close>, which is incremented at the end of the body, and
  the logger calls made so far; \<open>stats_dict_it\<close> is not used.
\<close>

definition train_body ::
  "('a, 'sp, 'p, 'o, 'sch, 'dev, 'tr, 'cb) torch \<Rightarrow> int
    \<Rightarrow> ('a, ('a, 'sp, 'kw, 'p, 'o, 'sch, 'dev, 'cb) BC \<times> int \<times> log_call list) consumer" where
  "train_body env log_interval st batch stats_dict_it =
     (case st of
        (self, batch_num_t, logged) \<Rightarrow>
          (case train_batch env self log_interval batch_num_t batch of
             (self', logs, Some e) \<Rightarrow> ((self', batch_num_t, logged @ logs), Some e)
           | (self', logs, None) \<Rightarrow> ((self', batch_num_t + 1, logged @ logs), None)))"

text \<open>
  \<open>BC.train\<close>: the trainer after training, the logger calls, and the exception if one
  is raised; \<open>None\<close> when training never ends.  The iterator is constructed with
  \<open>use_tqdm\<close> left \<open>None\<close>.  The loop body runs on each pair as the iterator yields it; what
  the iterator raises surfaces after the pairs yielded before.  Iterating over a data
  loader that is \<open>None\<close> is a \<open>TypeError\<close>.
\<close>

definition BC_train ::
  "('a, 'sp, 'p, 'o, 'sch, 'dev, 'tr, 'cb) torch \<Rightarrow> error + bool
    \<Rightarrow> ('a, 'sp, 'kw, 'p, 'o, 'sch, 'dev, 'cb) BC
    \<Rightarrow> int option \<Rightarrow> int option \<Rightarrow> 'cb option \<Rightarrow> 'cb option \<Rightarrow> int
    \<Rightarrow> (('a, 'sp, 'kw, 'p, 'o, 'sch, 'dev, 'cb) BC \<times> log_call list \<times> error option) option" where
  "BC_train env isatty self ne nb on_epoch_end_arg on_batch_end_arg log_interval =
     (let oe = join_callbacks env on_epoch_end_arg (epoch_end_step_callback self)
      in case EpochOrBatchIteratorWithProgress_init isatty
                (case expert_data_loader self of None \<Rightarrow> (\<lambda>k i. None) | Some dl \<Rightarrow> dl)
                ne nb None oe on_batch_end_arg of
           Inl e \<Rightarrow> Some (self, [], Some e)
         | Inr it \<Rightarrow>
             let self1 = self\<lparr>policy := policy_train env (policy self)\<rparr>
             in case expert_data_loader self of
                  None \<Rightarrow> Some (self1, [], Some TypeError)
                | Some dl \<Rightarrow>
                    map_option
                      (\<lambda>r. case r of
                              (evs, (self', batch_num_t, logged), k) \<Rightarrow>
                                (self', logged,
                                 (case k of Returned \<Rightarrow> None | Raised e \<Rightarrow> Some e)))
                      (EpochOrBatchIteratorWithProgress_iter_with it
                         (train_body env log_interval) (self1, 0, [])))"

section \<open>Notions for the statements\<close>

text \<open>
  The way an iteration ends, the pairs it yields and the number of passes over the data
  loader that it begins; each is \<open>None\<close> for an iteration that never ends.
\<close>

fun passes_begun :: "('a, 'cb) event list \<Rightarrow> nat" where
  "passes_begun [] = 0"
| "passes_begun (NewPass # evs) = Suc (passes_begun evs)"
| "passes_begun (_ # evs) = passes_begun evs"

definition completion_of ::
  "(('a, 'cb) event list \<times> completion) option \<Rightarrow> completion option" where
  "completion_of r = map_option snd r"

definition pairs_of ::
  "(('a, 'cb) event list \<times> completion) option \<Rightarrow> ('a batch \<times> stats) list option" where
  "pairs_of r = map_option (\<lambda>x. yielded (fst x)) r"

definition begun_of ::
  "(('a, 'cb) event list \<times> completion) option \<Rightarrow> nat option" where
  "begun_of r = map_option (\<lambda>x. passes_begun (fst x)) r"

text \<open>
  Lists of batches describe passes: \<open>begins_with p bs\<close> when the first batches of the pass
  \<open>p\<close> are those of \<open>bs\<close>, \<open>is_pass p bs\<close> when moreover the pass ends after them, so that
  \<open>bs\<close> holds all its batches.  \<open>pass_of bs\<close> is the pass that yields the batches of \<open>bs\<close> and
  ends, and \<open>loader_of bss\<close> the loader whose pass \<open>k\<close> is that of the list \<open>bss k\<close>.
\<close>

definition begins_with :: "'a pass \<Rightarrow> 'a batch list \<Rightarrow> bool" where
  "begins_with p bs = (\<forall>i < length bs. p i = Some (bs ! i))"

definition is_pass :: "'a pass \<Rightarrow> 'a batch list \<Rightarrow> bool" where
  "is_pass p bs = (begins_with p bs \<and> p (length bs) = None)"

definition pass_of :: "'a batch list \<Rightarrow> 'a pass" where
  "pass_of bs i = (if i < length bs then Some (bs ! i) else None)"

definition loader_of :: "(nat \<Rightarrow> 'a batch list) \<Rightarrow> 'a loader" where
  "loader_of bss k = pass_of (bss k)"

text \<open>
  A batch is well-formed when it has an \<open>obs\<close> with at least one sample, a list of batches
  when it has a batch and all its batches are well-formed; \<open>passes bss k\<close> are the first \<open>k\<close>
  lists of \<open>bss\<close>, and \<open>after_first bss\<close> are the lists after the first.
\<close>

definition good_batch :: "'a batch \<Rightarrow> bool" where
  "good_batch b = (case b ''obs'' of None \<Rightarrow> False | Some obs \<Rightarrow> obs \<noteq> [])"

definition good_pass :: "'a batch list \<Rightarrow> bool" where
  "good_pass bs = (bs \<noteq> [] \<and> list_all good_batch bs)"

definition passes :: "(nat \<Rightarrow> 'a batch list) \<Rightarrow> nat \<Rightarrow> 'a batch list list" where
  "passes bss k = map bss [0..<k]"

definition after_first :: "(nat \<Rightarrow> 'a batch list) \<Rightarrow> nat \<Rightarrow> 'a batch list" where
  "after_first bss k = bss (Suc k)"

text \<open>
  The events of one well-formed batch, given the locals after it, and the events that end
  a pass, given the locals after it.
\<close>

definition batch_events ::
  "('a, 'cb) EpochOrBatchIteratorWithProgress \<Rightarrow> 'a batch \<Rightarrow> locals \<Rightarrow> ('a, 'cb) event list" where
  "batch_events self b l2 =
     Yield b [(''epoch_num'', epoch_num l2), (''batch_num'', batch_num l2),
              (''samples_so_far'', samples_so_far l2)] # call (on_batch_end self) @
     (if use_epochs self then []
      else update_desc self l2 @ (if use_tqdm self then [TqdmUpdate 1] else []))"

definition epoch_events ::
  "('a, 'cb) EpochOrBatchIteratorWithProgress \<Rightarrow> locals \<Rightarrow> ('a, 'cb) event list" where
  "epoch_events self l2 =
     call (on_epoch_end self) @
     (if use_epochs self then update_desc self l2 @ (if use_tqdm self then [TqdmUpdate 1] else [])
      else [])"

text \<open>The distance of the counter of the mode to its target.\<close>

definition remaining :: "('a, 'cb) EpochOrBatchIteratorWithProgress \<Rightarrow> locals \<Rightarrow> nat" where
  "remaining self l =
     (if use_epochs self then (case n_epochs self of None \<Rightarrow> 0 | Some n \<Rightarrow> nat (n - epoch_num l))
      else (case n_batches self of None \<Rightarrow> 0 | Some n \<Rightarrow> nat (n - batch_num l)))"

text \<open>
  Whether the loop, started with locals \<open>l\<close>, begins pass \<open>k\<close> when the passes before it are
  the well-formed lists \<open>bss 0\<close>, ..., \<open>bss (k - 1)\<close>: the target is not reached within them.
\<close>

definition reaches_pass_from ::
  "('a, 'cb) EpochOrBatchIteratorWithProgress \<Rightarrow> (nat \<Rightarrow> 'a batch list) \<Rightarrow> locals \<Rightarrow> nat
    \<Rightarrow> bool" where
  "reaches_pass_from self bss l k =
     (k = 0 \<or>
      (if use_epochs self then
         (case n_epochs self of None \<Rightarrow> False | Some n \<Rightarrow> epoch_num l + int k < n)
       else
         (case n_batches self of None \<Rightarrow> False
          | Some n \<Rightarrow> batch_num l + int (length (concat (passes bss k))) < n)))"

text \<open>The iterator begins pass \<open>k\<close> when the passes before it are the well-formed lists of \<open>bss\<close>.\<close>

definition reaches_pass ::
  "('a, 'cb) EpochOrBatchIteratorWithProgress \<Rightarrow> (nat \<Rightarrow> 'a batch list) \<Rightarrow> nat \<Rightarrow> bool" where
  "reaches_pass self bss k =
     (k = 0 \<or>
      (if use_epochs self then
         (case n_epochs self of None \<Rightarrow> False | Some n \<Rightarrow> int k < n)
       else
         (case n_batches self of None \<Rightarrow> False
          | Some n \<Rightarrow> int (length (concat (passes bss k))) < n)))"

text \<open>
  The shaped reward of one transition as the specification writes it, from the base
  reward \<open>r\<close>, the flag \<open>d\<close>, and the potentials \<open>pn\<close> of the next state and \<open>po\<close> of the state.
\<close>

definition shaping_formula :: "real \<Rightarrow> real \<times> real \<times> real \<times> real \<Rightarrow> real" where
  "shaping_formula gamma q = (case q of (r, d, pn, po) \<Rightarrow> r + gamma * (1 - d) * pn - po)"

text \<open>
  The library with \<open>preprocess_obs\<close> restricted to \<open>normalize_images=True\<close>: whatever
  flag it is called with, it answers as for \<open>True\<close>.
\<close>

definition always_normalizing ::
  "('a, 'sp, 'p, 'o, 'sch, 'dev, 'tr, 'cb) torch \<Rightarrow> ('a, 'sp, 'p, 'o, 'sch, 'dev, 'tr, 'cb) torch" where
  "always_normalizing env =
     env\<lparr>sb3_preprocessing :=
           (sb3_preprocessing env)
             \<lparr>preprocess_obs := (\<lambda>t sp n. preprocess_obs (sb3_preprocessing env) t sp True)\<rparr>\<rparr>"

section \<open>Example data\<close>

text \<open>
  Batches, loaders, an iterator, reward nets and a trainer on which the theorems below are
  run.  The passes of \<open>endless_loader\<close> never end.  The example policy is its list of
  parameter tensors, with gradients equal to the parameters; the other library functions
  are simple stand-ins.
\<close>

definition batch_a :: "nat batch" where
  "batch_a = [''obs'' \<mapsto> [1, 2], ''acts'' \<mapsto> [0, 1]]"

definition batch_b :: "nat batch" where
  "batch_b = [''obs'' \<mapsto> [3], ''acts'' \<mapsto> [1]]"

definition batch_without_samples :: "nat batch" where
  "batch_without_samples = [''obs'' \<mapsto> [], ''acts'' \<mapsto> []]"

definition uneven_passes :: "nat \<Rightarrow> nat batch list" where
  "uneven_passes k = (if k = 0 then [batch_a, batch_b] else if k = 1 then [batch_b, batch_a]
                      else [batch_a, batch_b, batch_a])"

definition uneven_loader :: "nat loader" where
  "uneven_loader = loader_of uneven_passes"

definition drained_passes :: "nat \<Rightarrow> nat batch list" where
  "drained_passes k = (if k = 0 then [batch_a] else [])"

definition drained_loader :: "nat loader" where
  "drained_loader = loader_of drained_passes"

definition hollow_loader :: "nat loader" where
  "hollow_loader = loader_of (\<lambda>k. [batch_without_samples, batch_a])"

definition endless_loader :: "nat loader" where
  "endless_loader k i = Some (if even i then batch_a else batch_b)"

definition iterator_of ::
  "nat loader \<Rightarrow> int option \<Rightarrow> int option \<Rightarrow> (nat, string) EpochOrBatchIteratorWithProgress" where
  "iterator_of dl ne nb =
     \<lparr>data_loader = dl, use_epochs = (ne \<noteq> None), n_epochs = ne, n_batches = nb,
      use_tqdm = True, on_epoch_end = Some ''on_epoch_end'', on_batch_end = None\<rparr>"

definition example_base :: "(nat, nat, unit) ConcreteRewardNet" where
  "example_base =
     \<lparr>observation_space = (), action_space = (), normalize_images = True,
      forward = (\<lambda>s a ns d. Inr (map (\<lambda>(x, y). real x + real y) (zip s a)))\<rparr>"

definition example_shaped :: "(nat, nat, unit) ShapedRewardNet" where
  "example_shaped =
     ShapedRewardNet_init () () example_base (map (\<lambda>s. 2 * real s)) (1 / 2) True"

definition example_normalized :: "(nat, nat, unit) NormalizedRewardNet" where
  "example_normalized =
     NormalizedRewardNet_init () () example_base (Some (\<lambda>n. map (\<lambda>x. x / 2))) True"

definition example_dim :: "nat \<Rightarrow> int" where
  "example_dim sp = int sp"

definition example_preprocessing :: "(nat, nat, unit) preprocessing" where
  "example_preprocessing =
     \<lparr>preprocess_obs = (\<lambda>t sp ni. t), preprocess_act = (\<lambda>t sp ni. t),
      get_flattened_obs_dim = (\<lambda>sp. 1), is_image_space = (\<lambda>sp. False),
      shape = (\<lambda>t. [length t])\<rparr>"

definition example_torch ::
  "(nat, unit, real list list, unit, unit, unit, nat list, string) torch" where
  "example_torch =
     \<lparr>get_device = (\<lambda>d. d), to_device = (\<lambda>p d. p), policy_train = (\<lambda>p. p),
      parameters = (\<lambda>p. p), grads = map Some,
      evaluate_actions = (\<lambda>p obs acts. (map (\<lambda>x. - real x) obs, map real acts)),
      optimize = (\<lambda>opt f p. (opt, p)), optim_lr_gmean = (\<lambda>opt. 1),
      scheduler_step = (\<lambda>sch. ''lr_scheduler.step''),
      join_callbacks = (\<lambda>a b. case a of None \<Rightarrow> b | Some x \<Rightarrow> Some x),
      DataLoader = (\<lambda>tr shuffle n. loader_of (\<lambda>k. [[''obs'' \<mapsto> tr, ''acts'' \<mapsto> tr]])),
      is_Box = (\<lambda>sp. True), times = (\<lambda>t c. t),
      sb3_preprocessing = example_preprocessing\<rparr>"

definition example_BC ::
  "(nat, unit, unit, real list list, unit, unit, unit, string) BC" where
  "example_BC =
     \<lparr>bc_action_space = (), bc_observation_space = (),
      policy_class = (\<lambda>kws. Inr [[1, 2], [3]]), device = (), policy_kwargs = Map.empty,
      policy = [[1, 2], [3]], optimizer = (), lr_scheduler = None,
      epoch_end_step_callback = None, expert_data_loader = None,
      ent_weight = 1 / 2, l2_weight = 2, augmentation_fn = (\<lambda>x. x)\<rparr>"

definition example_policy_class :: "(string \<rightharpoonup> (unit, unit) policy_kwarg) \<Rightarrow> error + real list list" where
  "example_policy_class kws = Inr [[1, 2], [3]]"

definition example_optimizer_cls :: "real list list \<Rightarrow> (string \<times> unit) list \<Rightarrow> error + unit" where
  "example_optimizer_cls ps kws = (if ps = [] then Inl ValueError else Inr ())"

section \<open>Lemmas on the iterator\<close>

lemma yielded_append: "yielded (xs @ ys) = yielded xs @ yielded ys"
  by (induction xs rule: yielded.induct) simp_all

lemma yielded_update_desc: "yielded (update_desc self l) = []"
  by (simp add: update_desc_def)

lemma yielded_call: "yielded (call cb) = []"
  by (simp add: call_def split: option.splits)

lemma yielded_emit: "yielded (fst (emit evs r)) = yielded evs @ yielded (fst r)"
  by (simp add: emit_def yielded_append)

lemma snd_emit: "snd (emit evs r) = snd r"
  by (simp add: emit_def)

lemmas yielded_simps = yielded_append yielded_update_desc yielded_call yielded_emit snd_emit

lemma yielded_batch_events: "map fst (yielded (batch_events self b l2)) = [b]"
  by (simp add: batch_events_def yielded_simps)

lemma begins_with_Nil [simp]: "begins_with p []"
  by (simp add: begins_with_def)

lemma begins_with_Cons [simp]:
  "begins_with p (b # bs) = (p 0 = Some b \<and> begins_with (after_batch p) bs)"
  by (auto simp: begins_with_def after_batch_def less_Suc_eq_0_disj)

lemma is_pass_Nil [simp]: "is_pass p [] = (p 0 = None)"
  by (simp add: is_pass_def)

lemma is_pass_Cons [simp]:
  "is_pass p (b # bs) = (p 0 = Some b \<and> is_pass (after_batch p) bs)"
  by (auto simp: is_pass_def after_batch_def)

lemma begins_with_take: "begins_with p bs \<Longrightarrow> begins_with p (take m bs)"
  by (simp add: begins_with_def)

lemma is_pass_begins_with: "is_pass p bs \<Longrightarrow> begins_with p bs"
  by (simp add: is_pass_def)

lemma after_batch_pass_of [simp]: "after_batch (pass_of (b # bs)) = pass_of bs"
  by (rule ext) (simp add: after_batch_def pass_of_def)

lemma is_pass_pass_of [simp]: "is_pass (pass_of bs) bs"
  by (simp add: is_pass_def begins_with_def pass_of_def)

text \<open>One step of the \<open>for\<close> loop.\<close>

lemma for_batch_in_end:
  "p 0 = None \<Longrightarrow> for_batch_in self body p l c = Some ([], c, Inl l)"
  by (subst for_batch_in.simps) simp

lemma for_batch_in_bad:
  assumes "p 0 = Some b" "\<not> good_batch b"
  shows "for_batch_in self body p l c =
           Some ([], c, Inr (Raised (if b ''obs'' = None then KeyError else AssertionError)))"
  using assms
  by (subst for_batch_in.simps) (simp add: good_batch_def split: option.splits)

lemma for_batch_in_cons_good:
  assumes "p 0 = Some b" "b ''obs'' = Some obs" "obs \<noteq> []"
    and "lb = l\<lparr>got_data_on_epoch := True, batch_num := batch_num l + 1,
                 samples_so_far := samples_so_far l + int (length obs)\<rparr>"
  shows "for_batch_in self exhaust p l c =
    (if \<not> use_epochs self then
       (case n_batches self of
          None \<Rightarrow> Some (batch_events self b lb, c, Inr (Raised TypeError))
        | Some n \<Rightarrow> if batch_num l + 1 \<ge> n then Some (batch_events self b lb, c, Inr Returned)
                    else Option.bind (for_batch_in self exhaust (after_batch p) lb c)
                           (\<lambda>r. Some (emit (batch_events self b lb) r)))
     else Option.bind (for_batch_in self exhaust (after_batch p) lb c)
            (\<lambda>r. Some (emit (batch_events self b lb) r)))"
  using assms
  by (subst for_batch_in.simps)
     (simp add: Let_def batch_events_def exhaust_def split: option.splits)

lemma passes_begun_append: "passes_begun (xs @ ys) = passes_begun xs + passes_begun ys"
  by (induction xs rule: passes_begun.induct) simp_all

lemma passes_begun_update_desc: "passes_begun (update_desc self l) = 0"
  by (simp add: update_desc_def)

lemma passes_begun_call: "passes_begun (call cb) = 0"
  by (simp add: call_def split: option.splits)

lemma passes_begun_epoch_events: "passes_begun (epoch_events self l) = 0"
  by (simp add: epoch_events_def passes_begun_append passes_begun_update_desc passes_begun_call)

lemma passes_begun_emit:
  "passes_begun (fst (emit evs r)) = passes_begun evs + passes_begun (fst r)"
  by (simp add: emit_def passes_begun_append)

lemmas passes_begun_simps = passes_begun_append passes_begun_update_desc passes_begun_call
  passes_begun_epoch_events passes_begun_emit

lemma for_batch_in_Some:
  assumes "for_batch_in self body p l c = Some y"
  shows "passes_begun (fst y) = 0 \<and>
         (\<forall>l'. snd (snd y) = Inl l' \<longrightarrow>
            epoch_num l' = epoch_num l \<and>
            (p 0 = None \<longrightarrow> l' = l) \<and>
            (p 0 \<noteq> None \<longrightarrow> got_data_on_epoch l' \<and> batch_num l < batch_num l' \<and>
               (\<not> use_epochs self \<longrightarrow> (\<exists>n. n_batches self = Some n \<and> batch_num l' < n))))"
proof (rule for_batch_in.raw_induct[where P = "\<lambda>self body p l c y. passes_begun (fst y) = 0 \<and>
         (\<forall>l'. snd (snd y) = Inl l' \<longrightarrow>
            epoch_num l' = epoch_num l \<and>
            (p 0 = None \<longrightarrow> l' = l) \<and>
            (p 0 \<noteq> None \<longrightarrow> got_data_on_epoch l' \<and> batch_num l < batch_num l' \<and>
               (\<not> use_epochs self \<longrightarrow> (\<exists>n. n_batches self = Some n \<and> batch_num l' < n))))", OF _ assms],
    goal_cases)
  case (1 f self body p l c y)
  note IH = 1(1) and eq = 1(2)
  show ?case
  proof (cases "p 0")
    case None
    with eq show ?thesis by auto
  next
    case (Some b)
    show ?thesis
      using eq Some
      by (auto simp: Let_def bind_eq_Some_conv passes_begun_simps emit_def
               dest!: IH split: option.splits if_splits)
  qed
qed

text \<open>An endless pass of well-formed batches in epoch mode: the \<open>for\<close> loop never ends.\<close>

lemma for_batch_in_endless_aux:
  assumes "for_batch_in self body p l c = Some y"
  shows "\<not> (use_epochs self \<and> (\<forall>i. \<exists>b. p i = Some b \<and> good_batch b) \<and>
            (\<forall>c b s. snd (body c b s) = None))"
proof (rule for_batch_in.raw_induct[where P = "\<lambda>self body p l c y.
    \<not> (use_epochs self \<and> (\<forall>i. \<exists>b. p i = Some b \<and> good_batch b) \<and>
            (\<forall>c b s. snd (body c b s) = None))", OF _ assms], goal_cases)
  case (1 f self body p l c y)
  note IH = 1(1) and eq = 1(2)
  show ?case
  proof
    assume a: "use_epochs self \<and> (\<forall>i. \<exists>b. p i = Some b \<and> good_batch b) \<and>
            (\<forall>c b s. snd (body c b s) = None)"
    then obtain b where b: "p 0 = Some b" "good_batch b" by blast
    from a have a': "use_epochs self \<and> (\<forall>i. \<exists>b. after_batch p i = Some b \<and> good_batch b) \<and>
            (\<forall>c b s. snd (body c b s) = None)"
      by (simp add: after_batch_def)
    from eq b a obtain l2 c2 r where "f self body (after_batch p) l2 c2 = Some r"
      by (auto simp: Let_def bind_eq_Some_conv good_batch_def split: option.splits if_splits)
    from IH[OF this] a' show False by blast
  qed
qed

lemma for_batch_in_endless:
  assumes "use_epochs self" "\<forall>i. \<exists>b. p i = Some b \<and> good_batch b"
    and "\<forall>c b s. snd (body c b s) = None"
  shows "for_batch_in self body p l c = None"
proof (cases "for_batch_in self body p l c")
  case None
  then show ?thesis .
next
  case (Some y)
  from for_batch_in_endless_aux[OF Some] assms show ?thesis by blast
qed

lemma bind_Some_eq_None: "(Option.bind x (\<lambda>r. Some (g r)) = None) = (x = None)"
  by (cases x) simp_all

text \<open>The \<open>for\<close> loop ends on a pass that ends, and in batch mode on every pass.\<close>

lemma for_batch_in_ends_finite:
  assumes "is_pass p bs"
  shows "for_batch_in self body p l c \<noteq> None"
  using assms
proof (induction bs arbitrary: p l c)
  case Nil
  then show ?case by (simp add: for_batch_in_end)
next
  case (Cons b bs)
  then have p0: "p 0 = Some b" and rest: "is_pass (after_batch p) bs" by simp_all
  note ih = Cons.IH[OF rest]
  show ?case
    by (subst for_batch_in.simps)
       (simp add: p0 Let_def bind_Some_eq_None ih del: not_None_eq split: option.splits)
qed

lemma for_batch_in_ends_batch_mode:
  assumes "\<not> use_epochs self"
  shows "for_batch_in self body p l c \<noteq> None"
proof (cases "n_batches self")
  case None
  with assms show ?thesis
    by (subst for_batch_in.simps) (simp add: Let_def del: not_None_eq split: option.splits)
next
  case (Some n)
  show ?thesis
  proof (induction "nat (n - batch_num l)" arbitrary: p l c rule: less_induct)
    case less
    have ih: "for_batch_in self body (after_batch p) l2 c2 \<noteq> None"
      if "batch_num l2 = batch_num l + 1" "\<not> n \<le> batch_num l + 1" for l2 c2
      using less[of l2 "after_batch p" c2] that by auto
    show ?case
      by (subst for_batch_in.simps)
         (simp add: Let_def bind_Some_eq_None Some assms ih del: not_None_eq split: option.splits)
  qed
qed

text \<open>A pass of well-formed batches that does not reach a batch target runs to its end.\<close>

lemma for_batch_in_runs:
  assumes "is_pass p bs" "list_all good_batch bs"
    and "use_epochs self \<or> (\<exists>n. n_batches self = Some n \<and> batch_num l + int (length bs) < n)"
  shows "\<exists>evs l'. for_batch_in self exhaust p l c = Some (evs, c, Inl l') \<and>
           map fst (yielded evs) = bs \<and> batch_num l' = batch_num l + int (length bs)"
  using assms
proof (induction bs arbitrary: p l)
  case Nil
  then show ?case by (simp add: for_batch_in_end)
next
  case (Cons b bs)
  from Cons.prems(1) have p0: "p 0 = Some b" and rest_p: "is_pass (after_batch p) bs" by simp_all
  from Cons.prems(2) obtain obs where obs: "b ''obs'' = Some obs" "obs \<noteq> []"
    by (auto simp: good_batch_def split: option.splits)
  define l2 where "l2 = l\<lparr>got_data_on_epoch := True, batch_num := batch_num l + 1,
                 samples_so_far := samples_so_far l + int (length obs)\<rparr>"
  note step = for_batch_in_cons_good[where p=p and b=b and obs=obs and l=l and lb=l2,
      OF p0 obs l2_def]
  have bn: "batch_num l2 = batch_num l + 1" by (simp add: l2_def)
  have "use_epochs self \<or> (\<exists>n. n_batches self = Some n \<and> batch_num l2 + int (length bs) < n)"
    using Cons.prems(3) by (auto simp: bn)
  with Cons.IH[OF rest_p, of l2] Cons.prems(2) obtain evs l' where
    rest: "for_batch_in self exhaust (after_batch p) l2 c = Some (evs, c, Inl l')"
      "map fst (yielded evs) = bs" "batch_num l' = batch_num l2 + int (length bs)"
    by auto
  have "for_batch_in self exhaust p l c =
          Option.bind (for_batch_in self exhaust (after_batch p) l2 c)
            (\<lambda>r. Some (emit (batch_events self b l2) r))"
    using Cons.prems(3) unfolding step by auto
  then show ?case
    by (simp add: rest emit_def yielded_simps yielded_batch_events bn)
qed

text \<open>In batch mode the pass returns right after the batch that reaches the target.\<close>

lemma for_batch_in_returns:
  assumes "\<not> use_epochs self" "n_batches self = Some n"
    and "m = max 1 (nat (n - batch_num l))" "m \<le> length bs"
    and "begins_with p bs" "list_all good_batch (take m bs)"
  shows "\<exists>evs. for_batch_in self exhaust p l c = Some (evs, c, Inr Returned) \<and>
           map fst (yielded evs) = take m bs"
  using assms
proof (induction bs arbitrary: p l m)
  case Nil
  then show ?case by simp
next
  case (Cons b bs)
  from Cons.prems have "m \<noteq> 0" by simp
  then obtain m' where m': "m = Suc m'" by (cases m) auto
  from Cons.prems(5) have p0: "p 0 = Some b" and rest_p: "begins_with (after_batch p) bs"
    by simp_all
  from Cons.prems(6) m' have "good_batch b" by simp
  then obtain obs where obs: "b ''obs'' = Some obs" "obs \<noteq> []"
    by (auto simp: good_batch_def split: option.splits)
  define l2 where "l2 = l\<lparr>got_data_on_epoch := True, batch_num := batch_num l + 1,
                 samples_so_far := samples_so_far l + int (length obs)\<rparr>"
  note step = for_batch_in_cons_good[where p=p and b=b and obs=obs and l=l and lb=l2,
      OF p0 obs l2_def]
  have bn: "batch_num l2 = batch_num l + 1" by (simp add: l2_def)
  show ?case
  proof (cases "n \<le> batch_num l + 1")
    case True
    with Cons.prems m' have "m' = 0" by auto
    have "for_batch_in self exhaust p l c = Some (batch_events self b l2, c, Inr Returned)"
      using True Cons.prems(1,2) unfolding step by simp
    with \<open>m' = 0\<close> m' show ?thesis
      by (simp add: yielded_batch_events)
  next
    case False
    from Cons.prems(6) m' have g: "list_all good_batch (take m' bs)" by simp
    from False Cons.prems(3,4) m' have "m' = max 1 (nat (n - batch_num l2))" "m' \<le> length bs"
      by (auto simp: bn)
    note this rest_p g
    from Cons.IH[OF Cons.prems(1,2) this] obtain evs where
      rest: "for_batch_in self exhaust (after_batch p) l2 c = Some (evs, c, Inr Returned)"
        "map fst (yielded evs) = take m' bs"
      by auto
    have "for_batch_in self exhaust p l c =
            Option.bind (for_batch_in self exhaust (after_batch p) l2 c)
              (\<lambda>r. Some (emit (batch_events self b l2) r))"
      using False Cons.prems(1,2) unfolding step by simp
    with rest m' show ?thesis
      by (simp add: emit_def yielded_simps yielded_batch_events)
  qed
qed

lemma yielded_epoch_events: "yielded (epoch_events self l2) = []"
  by (simp add: epoch_events_def yielded_simps)

lemma passes_Suc: "passes bss (Suc k) = bss 0 # passes (after_first bss) k"
  by (simp add: passes_def map_upt_Suc after_first_def del: upt_Suc)

text \<open>One turn of the \<open>while\<close> loop, by what the pass does.\<close>

lemma while_True_diverges:
  assumes "for_batch_in self body (dl 0) (l\<lparr>got_data_on_epoch := False\<rparr>) c = None"
  shows "while_True self body dl l c = None"
  using assms by (subst while_True.simps) simp

lemma while_True_empty:
  assumes "dl 0 0 = None"
  shows "while_True self body dl l c = Some (update_desc self l @ [NewPass], c, Raised AssertionError)"
  using assms by (subst while_True.simps) (simp add: for_batch_in_end emit_def)

lemma while_True_left:
  assumes "for_batch_in self body (dl 0) (l\<lparr>got_data_on_epoch := False\<rparr>) c = Some (evs, c1, Inr k)"
  shows "while_True self body dl l c = Some (update_desc self l @ NewPass # evs, c1, k)"
  using assms by (subst while_True.simps) (simp add: emit_def)

lemma while_True_pass:
  assumes "for_batch_in self body (dl 0) (l\<lparr>got_data_on_epoch := False\<rparr>) c = Some (evs, c1, Inl l1)"
    and "dl 0 0 \<noteq> None" and "lnext = l1\<lparr>epoch_num := epoch_num l1 + 1\<rparr>"
  shows "while_True self body dl l c =
           Option.bind
             (if use_epochs self then
                (case n_epochs self of
                   None \<Rightarrow> Some ([], c1, Raised TypeError)
                 | Some n \<Rightarrow> if epoch_num l + 1 \<ge> n then Some ([], c1, Returned)
                             else while_True self body (after_pass dl) lnext c1)
              else while_True self body (after_pass dl) lnext c1)
             (\<lambda>r. Some (emit (update_desc self l @ NewPass # evs @ epoch_events self lnext) r))"
proof -
  from for_batch_in_Some[OF assms(1)] assms(2)
  have "got_data_on_epoch l1" "epoch_num l1 = epoch_num l" by simp_all
  with assms(1,3) show ?thesis
    by (subst while_True.simps)
       (cases "while_True self body (after_pass dl) lnext c1";
        simp add: emit_def epoch_events_def Let_def split: option.splits)
qed

lemma remaining_after_pass:
  assumes run: "for_batch_in self body (dl 0) (l\<lparr>got_data_on_epoch := False\<rparr>) c = Some (evs, c1, Inl l1)"
    and ne: "dl 0 0 \<noteq> None" and l2: "l2 = l1\<lparr>epoch_num := epoch_num l1 + 1\<rparr>"
    and again: "if use_epochs self then \<exists>n. n_epochs self = Some n \<and> \<not> n \<le> epoch_num l + 1 else True"
  shows "0 < remaining self l2 \<and> remaining self l2 < remaining self l"
proof -
  from for_batch_in_Some[OF run] ne
  have "epoch_num l1 = epoch_num l" "batch_num l < batch_num l1"
    "\<not> use_epochs self \<longrightarrow> (\<exists>n. n_batches self = Some n \<and> batch_num l1 < n)"
    by simp_all
  then show ?thesis
    using again by (auto simp: remaining_def l2 split: if_splits)
qed

lemma while_True_epochs:
  assumes "use_epochs self" "n_epochs self = Some n"
    and "m = max 1 (nat (n - epoch_num l))"
    and "\<forall>j < m. is_pass (dl j) (bss j)" "list_all good_pass (passes bss m)"
  shows "\<exists>evs. while_True self exhaust dl l c = Some (evs, c, Returned) \<and>
           map fst (yielded evs) = concat (passes bss m)"
  using assms
proof (induction m arbitrary: dl bss l)
  case 0
  then show ?case by simp
next
  case (Suc m)
  from Suc.prems(5) have "good_pass (bss 0)"
    and rest: "list_all good_pass (passes (after_first bss) m)"
    by (simp_all add: passes_Suc)
  then have gp: "bss 0 \<noteq> []" "list_all good_batch (bss 0)"
    by (simp_all add: good_pass_def)
  from Suc.prems(4) have p0: "is_pass (dl 0) (bss 0)"
    and prest: "\<forall>j < m. is_pass (after_pass dl j) (after_first bss j)"
    by (simp_all add: after_pass_def after_first_def)
  from p0 gp(1) have ne: "dl 0 0 \<noteq> None" by (cases "bss 0") simp_all
  from for_batch_in_runs[OF p0 gp(2), of self "l\<lparr>got_data_on_epoch := False\<rparr>" c] Suc.prems(1)
  obtain evs l1 where
    run: "for_batch_in self exhaust (dl 0) (l\<lparr>got_data_on_epoch := False\<rparr>) c = Some (evs, c, Inl l1)"
    and ys: "map fst (yielded evs) = bss 0" by auto
  define l2 where "l2 = l1\<lparr>epoch_num := epoch_num l1 + 1\<rparr>"
  note turn = while_True_pass[where dl=dl and l=l and evs=evs and ?l1.0=l1 and lnext=l2,
      OF run ne l2_def]
  from for_batch_in_Some[OF run] have e2: "epoch_num l2 = epoch_num l + 1" by (simp add: l2_def)
  show ?case
  proof (cases "n \<le> epoch_num l + 1")
    case True
    with Suc.prems(3) have "m = 0" by auto
    with True Suc.prems(1,2) ys show ?thesis
      by (simp add: turn yielded_simps yielded_epoch_events passes_Suc passes_def emit_def)
  next
    case False
    with Suc.prems(3) have "m = max 1 (nat (n - epoch_num l2))" by (auto simp: e2)
    from Suc.IH[OF Suc.prems(1,2) this prest rest] obtain evs' where
      ih: "while_True self exhaust (after_pass dl) l2 c = Some (evs', c, Returned)"
        "map fst (yielded evs') = concat (passes (after_first bss) m)"
      by auto
    from False Suc.prems(1,2) ys show ?thesis
      by (simp add: turn yielded_simps yielded_epoch_events passes_Suc ih emit_def)
  qed
qed

lemma while_True_batches:
  assumes "\<not> use_epochs self" "n_batches self = Some n"
    and "m = max 1 (nat (n - batch_num l))"
    and "\<forall>j < k. begins_with (dl j) (bss j) \<and> (length (bss j) < m \<longrightarrow> is_pass (dl j) (bss j))"
    and "list_all (\<lambda>p. p \<noteq> []) (passes bss k)" "m \<le> length (concat (passes bss k))"
    and "list_all good_batch (take m (concat (passes bss k)))"
  shows "\<exists>evs. while_True self exhaust dl l c = Some (evs, c, Returned) \<and>
           map fst (yielded evs) = take m (concat (passes bss k))"
  using assms
proof (induction k arbitrary: dl bss l m)
  case 0
  then show ?case by (simp add: passes_def)
next
  case (Suc k)
  from Suc.prems(5) have ne: "bss 0 \<noteq> []"
    and rest: "list_all (\<lambda>p. p \<noteq> []) (passes (after_first bss) k)"
    by (simp_all add: passes_Suc)
  from Suc.prems(4) have b0: "begins_with (dl 0) (bss 0)"
    and i0: "length (bss 0) < m \<longrightarrow> is_pass (dl 0) (bss 0)"
    and prest: "\<forall>j < k. begins_with (after_pass dl j) (after_first bss j) \<and>
        (length (after_first bss j) < m \<longrightarrow> is_pass (after_pass dl j) (after_first bss j))"
    by (simp_all add: after_pass_def after_first_def)
  from b0 ne have ne': "dl 0 0 \<noteq> None" by (cases "bss 0") simp_all
  let ?l0 = "l\<lparr>got_data_on_epoch := False\<rparr>"
  have m0: "m = max 1 (nat (n - batch_num ?l0))" using Suc.prems(3) by simp
  show ?case
  proof (cases "m \<le> length (bss 0)")
    case True
    from Suc.prems(7) True have "list_all good_batch (take m (bss 0))" by (simp add: passes_Suc)
    from for_batch_in_returns[OF Suc.prems(1,2) m0 True b0 this, of c]
    obtain evs where "for_batch_in self exhaust (dl 0) ?l0 c = Some (evs, c, Inr Returned)"
      "map fst (yielded evs) = take m (bss 0)" by auto
    with True show ?thesis
      by (simp add: while_True_left[where evs=evs and k=Returned] yielded_simps passes_Suc)
  next
    case False
    with i0 have p0: "is_pass (dl 0) (bss 0)" by simp
    from Suc.prems(7) False have g: "list_all good_batch (bss 0)"
      and g': "list_all good_batch (take (m - length (bss 0)) (concat (passes (after_first bss) k)))"
      by (simp_all add: passes_Suc)
    from ne have "1 \<le> length (bss 0)" by (cases "bss 0") simp_all
    with False Suc.prems(3) have lt: "batch_num ?l0 + int (length (bss 0)) < n" by simp
    from for_batch_in_runs[OF p0 g, of self ?l0 c] Suc.prems(2) lt
    obtain evs l1 where run: "for_batch_in self exhaust (dl 0) ?l0 c = Some (evs, c, Inl l1)"
      and ys: "map fst (yielded evs) = bss 0"
      and b1: "batch_num l1 = batch_num ?l0 + int (length (bss 0))" by auto
    define l2 where "l2 = l1\<lparr>epoch_num := epoch_num l1 + 1\<rparr>"
    note turn = while_True_pass[where dl=dl and l=l and evs=evs and ?l1.0=l1 and lnext=l2,
        OF run ne' l2_def]
    from b1 have b2: "batch_num l2 = batch_num l + int (length (bss 0))"
      by (simp add: l2_def)
    from False Suc.prems(3) have m': "m - length (bss 0) = max 1 (nat (n - batch_num l2))"
      by (auto simp: b2)
    from Suc.prems(6) have le: "m - length (bss 0) \<le> length (concat (passes (after_first bss) k))"
      by (simp add: passes_Suc)
    from prest have prest': "\<forall>j < k. begins_with (after_pass dl j) (after_first bss j) \<and>
        (length (after_first bss j) < m - length (bss 0)
           \<longrightarrow> is_pass (after_pass dl j) (after_first bss j))"
      by auto
    from Suc.IH[OF Suc.prems(1,2) m' prest' rest le g'] obtain evs' where
      ih: "while_True self exhaust (after_pass dl) l2 c = Some (evs', c, Returned)"
        "map fst (yielded evs') = take (m - length (bss 0)) (concat (passes (after_first bss) k))"
      by auto
    from False Suc.prems(1) ys show ?thesis
      by (simp add: turn yielded_simps yielded_epoch_events passes_Suc ih emit_def)
  qed
qed

lemma while_True_raises:
  assumes "\<forall>j < k. is_pass (dl j) (bss j)" "list_all good_pass (passes bss k)" "dl k 0 = None"
    and "reaches_pass_from self bss l k"
  shows "\<exists>evs. while_True self exhaust dl l c = Some (evs, c, Raised AssertionError) \<and>
           map fst (yielded evs) = concat (passes bss k)"
  using assms
proof (induction k arbitrary: dl bss l)
  case 0
  then show ?case
    by (simp add: while_True_empty yielded_simps passes_def)
next
  case (Suc k)
  from Suc.prems(2) have "good_pass (bss 0)"
    and rest: "list_all good_pass (passes (after_first bss) k)"
    by (simp_all add: passes_Suc)
  then have gp: "bss 0 \<noteq> []" "list_all good_batch (bss 0)"
    by (simp_all add: good_pass_def)
  from Suc.prems(1) have p0: "is_pass (dl 0) (bss 0)"
    and prest: "\<forall>j < k. is_pass (after_pass dl j) (after_first bss j)"
    by (simp_all add: after_pass_def after_first_def)
  from p0 gp(1) have ne: "dl 0 0 \<noteq> None" by (cases "bss 0") simp_all
  let ?l0 = "l\<lparr>got_data_on_epoch := False\<rparr>"
  from Suc.prems(4) have mode:
    "use_epochs self \<or> (\<exists>n. n_batches self = Some n \<and> batch_num ?l0 + int (length (bss 0)) < n)"
    by (auto simp: reaches_pass_from_def passes_Suc split: if_splits option.splits)
  from for_batch_in_runs[OF p0 gp(2) mode, of c]
  obtain evs l1 where run: "for_batch_in self exhaust (dl 0) ?l0 c = Some (evs, c, Inl l1)"
    and ys: "map fst (yielded evs) = bss 0"
    and b1: "batch_num l1 = batch_num ?l0 + int (length (bss 0))" by auto
  define l2 where "l2 = l1\<lparr>epoch_num := epoch_num l1 + 1\<rparr>"
  note turn = while_True_pass[where dl=dl and l=l and evs=evs and ?l1.0=l1 and lnext=l2,
      OF run ne l2_def]
  from for_batch_in_Some[OF run] b1 have e2: "epoch_num l2 = epoch_num l + 1"
    and b2: "batch_num l2 = batch_num l + int (length (bss 0))"
    by (simp_all add: l2_def)
  from Suc.prems(4) have r: "reaches_pass_from self (after_first bss) l2 k"
    by (auto simp: reaches_pass_from_def passes_Suc e2 b2 split: if_splits option.splits)
  from Suc.prems(3) have "after_pass dl k 0 = None" by (simp add: after_pass_def)
  from Suc.IH[OF prest rest this r] obtain evs' where
    ih: "while_True self exhaust (after_pass dl) l2 c = Some (evs', c, Raised AssertionError)"
      "map fst (yielded evs') = concat (passes (after_first bss) k)"
    by auto
  from Suc.prems(4) have "use_epochs self \<Longrightarrow> \<exists>n. n_epochs self = Some n \<and> \<not> n \<le> epoch_num l + 1"
    by (auto simp: reaches_pass_from_def split: option.splits)
  with ys show ?case
    by (cases "use_epochs self")
       (auto simp: turn yielded_simps yielded_epoch_events passes_Suc ih emit_def)
qed

text \<open>A pass without a batch is the last one begun, and ends the loop with the assertion.\<close>

lemma while_True_empty_pass_begun:
  assumes "while_True self body dl l c = Some y"
  shows "\<forall>j. j < passes_begun (fst y) \<longrightarrow> dl j 0 = None \<longrightarrow>
           snd (snd y) = Raised AssertionError \<and> passes_begun (fst y) = Suc j"
proof (rule while_True.raw_induct[where P = "\<lambda>self body dl l c y.
    \<forall>j. j < passes_begun (fst y) \<longrightarrow> dl j 0 = None \<longrightarrow>
           snd (snd y) = Raised AssertionError \<and> passes_begun (fst y) = Suc j", OF _ assms],
    goal_cases)
  case (1 f self body dl l c y)
  note IH = 1(1) and eq = 1(2)
  let ?l0 = "l\<lparr>got_data_on_epoch := False\<rparr>"
  let ?pre = "update_desc self l @ [NewPass]"
  from eq obtain evs c1 r where fb: "for_batch_in self body (dl 0) ?l0 c = Some (evs, c1, r)"
    by (cases "for_batch_in self body (dl 0) ?l0 c") auto
  from for_batch_in_Some[OF fb] have pe: "passes_begun evs = 0" by simp
  show ?case
  proof (cases "dl 0 0")
    case None
    with fb have "evs = []" "c1 = c" "r = Inl ?l0" by (simp_all add: for_batch_in_end)
    with eq fb have "y = (?pre, c, Raised AssertionError)" by (simp add: emit_def)
    then show ?thesis by (auto simp: passes_begun_simps None)
  next
    case (Some b0)
    show ?thesis
    proof (cases r)
      case (Inr k)
      with eq fb have "y = (?pre @ evs, c1, k)" by (simp add: emit_def)
      with pe Some show ?thesis
        by (auto simp: passes_begun_simps less_Suc_eq_0_disj)
    next
      case (Inl l1)
      from for_batch_in_Some[OF fb] Inl Some have got: "got_data_on_epoch l1" by simp
      define l2 where "l2 = l1\<lparr>epoch_num := epoch_num l1 + 1\<rparr>"
      show ?thesis
      proof (cases "f self body (after_pass dl) l2 c1")
        case None
        with eq fb Inl got have y: "passes_begun (fst y) = 1"
          by (auto simp: emit_def Let_def l2_def passes_begun_simps pe
                   split: option.splits if_splits)
        with Some show ?thesis by (auto simp: less_Suc_eq_0_disj)
      next
        case rec: (Some y')
        from eq fb Inl got rec
        have "passes_begun (fst y) = 1 \<or>
              (passes_begun (fst y) = Suc (passes_begun (fst y')) \<and> snd (snd y) = snd (snd y'))"
          by (auto simp: emit_def Let_def l2_def passes_begun_simps pe
                   split: option.splits if_splits)
        then show ?thesis
        proof
          assume "passes_begun (fst y) = 1"
          with Some show ?thesis by (auto simp: less_Suc_eq_0_disj)
        next
          assume a: "passes_begun (fst y) = Suc (passes_begun (fst y')) \<and> snd (snd y) = snd (snd y')"
          show ?thesis
          proof (intro allI impI)
            fix j assume j: "j < passes_begun (fst y)" "dl j 0 = None"
            with Some obtain j' where j': "j = Suc j'" by (cases j) auto
            with j a have "j' < passes_begun (fst y')" "after_pass dl j' 0 = None"
              by (simp_all add: after_pass_def)
            with IH[OF rec] a j'
            show "snd (snd y) = Raised AssertionError \<and> passes_begun (fst y) = Suc j"
              by simp
          qed
        qed
      qed
    qed
  qed
qed

text \<open>
  The loop ends in batch mode, and it ends when the passes it can reach each end: it reads
  at most \<open>max 1 (remaining self l)\<close> passes.
\<close>

lemma while_True_ends:
  assumes "\<forall>j < max 1 (remaining self l). \<not> use_epochs self \<or> (\<exists>bs. is_pass (dl j) bs)"
  shows "while_True self body dl l c \<noteq> None"
  using assms
proof (induction "remaining self l" arbitrary: dl l c rule: less_induct)
  case less
  let ?l0 = "l\<lparr>got_data_on_epoch := False\<rparr>"
  from less.prems have "\<not> use_epochs self \<or> (\<exists>bs. is_pass (dl 0) bs)" by simp
  then have "for_batch_in self body (dl 0) ?l0 c \<noteq> None"
  proof
    assume "\<not> use_epochs self"
    then show ?thesis by (rule for_batch_in_ends_batch_mode)
  next
    assume "\<exists>bs. is_pass (dl 0) bs"
    then obtain bs where "is_pass (dl 0) bs" ..
    then show ?thesis by (rule for_batch_in_ends_finite)
  qed
  then obtain evs c1 r where fb: "for_batch_in self body (dl 0) ?l0 c = Some (evs, c1, r)"
    by (cases "for_batch_in self body (dl 0) ?l0 c") auto
  show ?case
  proof (cases "dl 0 0 = None")
    case True
    then show ?thesis by (simp add: while_True_empty)
  next
    case ne: False
    show ?thesis
    proof (cases r)
      case (Inr k)
      with fb show ?thesis by (simp add: while_True_left)
    next
      case (Inl l1)
      define l2 where "l2 = l1\<lparr>epoch_num := epoch_num l1 + 1\<rparr>"
      from fb Inl have run: "for_batch_in self body (dl 0) ?l0 c = Some (evs, c1, Inl l1)" by simp
      note turn = while_True_pass[where dl=dl and l=l and evs=evs and ?l1.0=l1 and lnext=l2,
          OF run ne l2_def]
      have rec: "while_True self body (after_pass dl) l2 c1 \<noteq> None"
        if again: "if use_epochs self then \<exists>n. n_epochs self = Some n \<and> \<not> n \<le> epoch_num l + 1 else True"
      proof -
        from remaining_after_pass[where dl=dl and l=l and evs=evs and ?l1.0=l1 and ?l2.0=l2,
            OF run ne l2_def again]
        have lt: "remaining self l2 < remaining self l" and pos: "0 < remaining self l2"
          by simp_all
        then have "\<forall>j < max 1 (remaining self l2).
            \<not> use_epochs self \<or> (\<exists>bs. is_pass (after_pass dl j) bs)"
          using less.prems by (auto simp: after_pass_def)
        from less.hyps[OF lt this] show ?thesis .
      qed
      show ?thesis
        unfolding turn
        by (auto simp: bind_Some_eq_None rec simp del: not_None_eq split: option.splits)
    qed
  qed
qed

text \<open>In epoch mode a pass of well-formed batches that never ends keeps the loop in it.\<close>

lemma while_True_endless:
  assumes "use_epochs self" "\<forall>i. \<exists>b. dl 0 i = Some b \<and> good_batch b"
    and "\<forall>c b s. snd (body c b s) = None"
  shows "while_True self body dl l c = None"
  by (rule while_True_diverges) (rule for_batch_in_endless[OF assms])

text \<open>The iteration, from the loop.\<close>

lemma iter_of_while:
  assumes "while_True self exhaust (data_loader self) initial_locals () = Some (evs, u, k)"
  shows "completion_of (EpochOrBatchIteratorWithProgress_iter self) = Some k"
    and "pairs_of (EpochOrBatchIteratorWithProgress_iter self) = Some (yielded evs)"
  using assms
  by (simp_all add: EpochOrBatchIteratorWithProgress_iter_def completion_of_def pairs_of_def
      EpochOrBatchIteratorWithProgress_iter_with_def yielded_simps)

lemma iter_None:
  "(EpochOrBatchIteratorWithProgress_iter self = None) =
     (while_True self exhaust (data_loader self) initial_locals () = None)"
  by (simp add: EpochOrBatchIteratorWithProgress_iter_def
      EpochOrBatchIteratorWithProgress_iter_with_def bind_Some_eq_None)

lemma iter_Some:
  assumes "EpochOrBatchIteratorWithProgress_iter self = Some (evs, k)"
  shows "\<exists>evs'. while_True self exhaust (data_loader self) initial_locals () = Some (evs', (), k) \<and>
           passes_begun evs = passes_begun evs' \<and> yielded evs = yielded evs'"
  using assms
  by (auto simp: EpochOrBatchIteratorWithProgress_iter_def
      EpochOrBatchIteratorWithProgress_iter_with_def bind_eq_Some_conv passes_begun_simps
      yielded_simps)

text \<open>What the constructor builds.\<close>

lemma init_batches:
  assumes "EpochOrBatchIteratorWithProgress_init isatty dl None (Some n) tq oe ob = Inr self"
  shows "\<not> use_epochs self" "n_batches self = Some n" "data_loader self = dl"
  using assms
  by (auto simp: EpochOrBatchIteratorWithProgress_init_def split: sum.splits option.splits)

lemma init_epochs:
  assumes "EpochOrBatchIteratorWithProgress_init isatty dl (Some n) None tq oe ob = Inr self"
  shows "use_epochs self" "n_epochs self = Some n" "data_loader self = dl"
  using assms
  by (auto simp: EpochOrBatchIteratorWithProgress_init_def split: sum.splits option.splits)

lemma reaches_pass_initial:
  "reaches_pass self bss k = reaches_pass_from self bss initial_locals k"
  by (simp add: reaches_pass_def reaches_pass_from_def initial_locals_def cong: option.case_cong)

lemma good_batch_a: "good_batch batch_a" by (simp add: good_batch_def batch_a_def)

lemma good_batch_b: "good_batch batch_b" by (simp add: good_batch_def batch_b_def)

lemma passes_uneven_2: "passes uneven_passes 2 = [[batch_a, batch_b], [batch_b, batch_a]]"
  by (simp add: passes_def uneven_passes_def upt_rec)

lemma passes_uneven_3:
  "passes uneven_passes 3 = [[batch_a, batch_b], [batch_b, batch_a], [batch_a, batch_b, batch_a]]"
  by (simp add: passes_def uneven_passes_def upt_rec)

lemma is_pass_loader_of: "is_pass (loader_of bss j) (bss j)"
  by (simp add: loader_of_def)

lemma init_iterator_of:
  "(ne = None) \<noteq> (nb = None) \<Longrightarrow>
   EpochOrBatchIteratorWithProgress_init (Inr True) dl ne nb None (Some ''on_epoch_end'') None
     = Inr (iterator_of dl ne nb)"
  by (auto simp: EpochOrBatchIteratorWithProgress_init_def iterator_of_def)

text \<open>The loop ends at a pass without a batch when the passes before it each end.\<close>

lemma while_True_ends_at_empty:
  assumes "\<forall>j < k. \<exists>bs. is_pass (dl j) bs" "dl k 0 = None"
  shows "while_True self body dl l c \<noteq> None"
  using assms
proof (induction k arbitrary: dl l c)
  case 0
  then show ?case by (simp add: while_True_empty)
next
  case (Suc k)
  let ?l0 = "l\<lparr>got_data_on_epoch := False\<rparr>"
  from Suc.prems(1) obtain bs where "is_pass (dl 0) bs" by auto
  then have "for_batch_in self body (dl 0) ?l0 c \<noteq> None" by (rule for_batch_in_ends_finite)
  then obtain evs c1 r where fb: "for_batch_in self body (dl 0) ?l0 c = Some (evs, c1, r)"
    by (cases "for_batch_in self body (dl 0) ?l0 c") auto
  from Suc.prems have rest: "\<forall>j < k. \<exists>bs. is_pass (after_pass dl j) bs" "after_pass dl k 0 = None"
    by (simp_all add: after_pass_def)
  note ih = Suc.IH[OF rest]
  show ?case
  proof (cases "dl 0 0 = None")
    case True
    then show ?thesis by (simp add: while_True_empty)
  next
    case ne: False
    show ?thesis
    proof (cases r)
      case (Inr k)
      with fb show ?thesis by (simp add: while_True_left)
    next
      case (Inl l1)
      define l2 where "l2 = l1\<lparr>epoch_num := epoch_num l1 + 1\<rparr>"
      from fb Inl have run: "for_batch_in self body (dl 0) ?l0 c = Some (evs, c1, Inl l1)" by simp
      note turn = while_True_pass[where dl=dl and l=l and evs=evs and ?l1.0=l1 and lnext=l2,
          OF run ne l2_def]
      show ?thesis
        unfolding turn
        by (auto simp: bind_Some_eq_None ih simp del: not_None_eq split: option.splits)
    qed
  qed
qed

text \<open>The outcome of the constructor in every case.\<close>

lemma init_outcome:
  "EpochOrBatchIteratorWithProgress_init isatty dl ne nb tq oe ob =
     (if (ne = None) = (nb = None) then Inl ValueError
      else case tq of
             Some u \<Rightarrow>
               Inr \<lparr>data_loader = dl, use_epochs = (ne \<noteq> None), n_epochs = ne, n_batches = nb,
                    use_tqdm = u, on_epoch_end = oe, on_batch_end = ob\<rparr>
           | None \<Rightarrow>
               (case isatty of
                  Inl e \<Rightarrow> Inl e
                | Inr t \<Rightarrow>
                    Inr \<lparr>data_loader = dl, use_epochs = (ne \<noteq> None), n_epochs = ne,
                         n_batches = nb, use_tqdm = t, on_epoch_end = oe, on_batch_end = ob\<rparr>))"
  by (auto simp: EpochOrBatchIteratorWithProgress_init_def split: option.splits sum.splits)

text \<open>The definitions that evaluate an iteration on an example.\<close>

lemmas iter_eval =
  completion_of_def pairs_of_def EpochOrBatchIteratorWithProgress_iter_def
  EpochOrBatchIteratorWithProgress_iter_with_def while_True.simps for_batch_in.simps
  iterator_of_def loader_of_def pass_of_def initial_locals_def exhaust_def after_pass_def
  after_batch_def emit_def Let_def update_desc_def call_def

section \<open>Lemmas on the reward nets\<close>

lemma broadcast_same:
  "length xs = length ys \<Longrightarrow> broadcast f xs ys = Inr (map2 f xs ys)"
  by (simp add: broadcast_def)

lemma shaped_pointwise:
  assumes "length r = n" "length d = n" "length pn = n" "length po = n"
  shows "map2 (-) (map2 (+) r (map (\<lambda>x. g * x) (map2 (*) (map (\<lambda>d. 1 - d) d) pn))) po
         = map (shaping_formula g) (zip r (zip d (zip pn po)))"
  using assms
proof (induction n arbitrary: r d pn po)
  case 0
  then show ?case by simp
next
  case (Suc n)
  then obtain r0 r' d0 d' pn0 pn' po0 po' where
    "r = r0 # r'" "d = d0 # d'" "pn = pn0 # pn'" "po = po0 # po'"
    by (metis length_Suc_conv)
  with Suc show ?case by (simp add: shaping_formula_def)
qed

lemma shaping_all_ones:
  assumes "length r = n" "length d = n" "length pn = n" "length po = n"
    and "list_all (\<lambda>x. x = 1) d"
  shows "map (shaping_formula g) (zip r (zip d (zip pn po))) = map2 (-) r po"
  using assms
  by (intro nth_equalityI) (auto simp: shaping_formula_def list_all_length)

lemma shaping_all_zeros:
  assumes "length r = n" "length d = n" "length pn = n" "length po = n"
    and "list_all (\<lambda>x. x = 0) d"
  shows "map (shaping_formula g) (zip r (zip d (zip pn po)))
         = map (\<lambda>(r, pn, po). r + g * pn - po) (zip r (zip pn po))"
  using assms
  by (intro nth_equalityI) (auto simp: shaping_formula_def list_all_length)

lemma example_shaped_simps:
  "forward (base example_shaped) s a ns d = Inr (map (\<lambda>(x, y). real x + real y) (zip s a))"
  "potential example_shaped s = map (\<lambda>s. 2 * real s) s"
  "discount_factor example_shaped = 1 / 2"
  by (simp_all add: example_shaped_def ShapedRewardNet_init_def example_base_def)

section \<open>Lemmas on the trainer\<close>

lemma BC_calculate_loss_always_normalizing [simp]:
  "BC_calculate_loss (always_normalizing env) self obs acts = BC_calculate_loss env self obs acts"
  by (simp add: BC_calculate_loss_def always_normalizing_def)

lemma loss_of_always_normalizing [simp]:
  "loss_of (always_normalizing env) self obs acts = loss_of env self obs acts"
  by (rule ext) (simp add: loss_of_def always_normalizing_def)

lemma BC_calculate_policy_norms_always_normalizing [simp]:
  "BC_calculate_policy_norms (always_normalizing env) pol = BC_calculate_policy_norms env pol"
  by (simp add: BC_calculate_policy_norms_def always_normalizing_def)

lemma always_normalizing_fields [simp]:
  "preprocess_obs (sb3_preprocessing (always_normalizing env)) t sp True = preprocess_obs (sb3_preprocessing env) t sp True"
  "is_image_space (sb3_preprocessing (always_normalizing env)) = is_image_space (sb3_preprocessing env)"
  "is_Box (always_normalizing env) = is_Box env"
  "times (always_normalizing env) = times env"
  "optimize (always_normalizing env) = optimize env"
  "optim_lr_gmean (always_normalizing env) = optim_lr_gmean env"
  "join_callbacks (always_normalizing env) = join_callbacks env"
  "policy_train (always_normalizing env) = policy_train env"
  by (simp_all add: always_normalizing_def)

lemma train_batch_always_normalizing [simp]:
  "train_batch (always_normalizing env) self li n batch = train_batch env self li n batch"
  by (simp add: train_batch_def Let_def cong: option.case_cong sum.case_cong prod.case_cong if_cong)

lemma train_body_always_normalizing [simp]:
  "train_body (always_normalizing env) li = train_body env li"
  by (intro ext) (simp add: train_body_def)

lemma BC_train_always_normalizing:
  "BC_train (always_normalizing env) tty self ne nb oe ob li = BC_train env tty self ne nb oe ob li"
  by (simp add: BC_train_def Let_def cong: option.case_cong sum.case_cong)

section \<open>The claims\<close>

subsection \<open>C1: how many pairs an iteration yields\<close>

text \<open>
  Claim C1 (amended).  Let the target \<open>N\<close> be positive, and let the lists \<open>bss 0\<close>, \<open>bss 1\<close>,
  ... describe the passes of the data loader.  An iterator constructed with
  \<open>n_batches = N\<close> returns after yielding exactly \<open>N\<close> pairs, whose batches are the first
  \<open>N\<close> batches of the passes laid end to end (so it may stop in the middle of a pass, and
  that pass need not end), provided that the passes it begins are non-empty and the batches
  it fetches have a non-empty \<open>obs\<close>: for some \<open>k\<close>, each of the first \<open>k\<close> passes begins
  with the batches of its list, which are all the batches of the pass when they are fewer
  than \<open>N\<close>, and the \<open>k\<close> lists are non-empty, hold at least \<open>N\<close> batches together, and
  their first \<open>N\<close> batches are well-formed.  An iterator constructed with \<open>n_epochs = N\<close>
  returns after yielding exactly the batches of the first \<open>N\<close> passes, as many pairs as the
  sum of their lengths, provided that each of these passes ends, is non-empty and holds
  only well-formed batches.
\<close>

theorem iter_yields_target:
  assumes "0 < N"
  shows
    "(EpochOrBatchIteratorWithProgress_init isatty dl None (Some N) tq oe ob = Inr self \<longrightarrow>
      (\<forall>j < k. begins_with (dl j) (bss j) \<and> (length (bss j) < nat N \<longrightarrow> is_pass (dl j) (bss j))) \<longrightarrow>
      list_all (\<lambda>p. p \<noteq> []) (passes bss k) \<longrightarrow>
      nat N \<le> length (concat (passes bss k)) \<longrightarrow>
      list_all good_batch (take (nat N) (concat (passes bss k))) \<longrightarrow>
        completion_of (EpochOrBatchIteratorWithProgress_iter self) = Some Returned \<and>
        map_option (map fst) (pairs_of (EpochOrBatchIteratorWithProgress_iter self))
          = Some (take (nat N) (concat (passes bss k))) \<and>
        map_option (\<lambda>ps. int (length ps)) (pairs_of (EpochOrBatchIteratorWithProgress_iter self))
          = Some N) \<and>
     (EpochOrBatchIteratorWithProgress_init isatty dl (Some N) None tq oe ob = Inr self' \<longrightarrow>
      (\<forall>j < nat N. is_pass (dl j) (bss j)) \<longrightarrow>
      list_all good_pass (passes bss (nat N)) \<longrightarrow>
        completion_of (EpochOrBatchIteratorWithProgress_iter self') = Some Returned \<and>
        map_option (map fst) (pairs_of (EpochOrBatchIteratorWithProgress_iter self'))
          = Some (concat (passes bss (nat N))) \<and>
        map_option length (pairs_of (EpochOrBatchIteratorWithProgress_iter self'))
          = Some (sum_list (map length (passes bss (nat N)))))"
proof (intro conjI impI)
  assume i: "EpochOrBatchIteratorWithProgress_init isatty dl None (Some N) tq oe ob = Inr self"
    and c: "\<forall>j < k. begins_with (dl j) (bss j) \<and> (length (bss j) < nat N \<longrightarrow> is_pass (dl j) (bss j))"
    and p: "list_all (\<lambda>p. p \<noteq> []) (passes bss k)" "nat N \<le> length (concat (passes bss k))"
      "list_all good_batch (take (nat N) (concat (passes bss k)))"
  from assms have m: "nat N = max 1 (nat (N - batch_num initial_locals))"
    by (simp add: initial_locals_def)
  from while_True_batches[OF init_batches(1,2)[OF i] m c p, of "()"]
  obtain evs where w: "while_True self exhaust dl initial_locals () = Some (evs, (), Returned)"
    and ys: "map fst (yielded evs) = take (nat N) (concat (passes bss k))" by auto
  from w have w': "while_True self exhaust (data_loader self) initial_locals () = Some (evs, (), Returned)"
    by (simp add: init_batches(3)[OF i])
  show "completion_of (EpochOrBatchIteratorWithProgress_iter self) = Some Returned"
    by (rule iter_of_while(1)[OF w'])
  show "map_option (map fst) (pairs_of (EpochOrBatchIteratorWithProgress_iter self))
          = Some (take (nat N) (concat (passes bss k)))"
    by (simp add: iter_of_while(2)[OF w'] ys)
  from arg_cong[OF ys, of length] p(2) assms
  show "map_option (\<lambda>ps. int (length ps)) (pairs_of (EpochOrBatchIteratorWithProgress_iter self))
          = Some N"
    by (simp add: iter_of_while(2)[OF w'])
next
  assume i: "EpochOrBatchIteratorWithProgress_init isatty dl (Some N) None tq oe ob = Inr self'"
    and c: "\<forall>j < nat N. is_pass (dl j) (bss j)"
    and p: "list_all good_pass (passes bss (nat N))"
  from assms have m: "nat N = max 1 (nat (N - epoch_num initial_locals))"
    by (simp add: initial_locals_def)
  from while_True_epochs[OF init_epochs(1,2)[OF i] m c p, of "()"]
  obtain evs where w: "while_True self' exhaust dl initial_locals () = Some (evs, (), Returned)"
    and ys: "map fst (yielded evs) = concat (passes bss (nat N))" by auto
  from w have w': "while_True self' exhaust (data_loader self') initial_locals () = Some (evs, (), Returned)"
    by (simp add: init_epochs(3)[OF i])
  show "completion_of (EpochOrBatchIteratorWithProgress_iter self') = Some Returned"
    by (rule iter_of_while(1)[OF w'])
  show "map_option (map fst) (pairs_of (EpochOrBatchIteratorWithProgress_iter self'))
          = Some (concat (passes bss (nat N)))"
    by (simp add: iter_of_while(2)[OF w'] ys)
  from arg_cong[OF ys, of length]
  show "map_option length (pairs_of (EpochOrBatchIteratorWithProgress_iter self'))
          = Some (sum_list (map length (passes bss (nat N))))"
    by (simp add: iter_of_while(2)[OF w'] length_concat)
qed

theorem iter_yields_target_witness:
  "completion_of (EpochOrBatchIteratorWithProgress_iter (iterator_of uneven_loader None (Some 3)))
     = Some Returned \<and>
   map_option (map fst)
     (pairs_of (EpochOrBatchIteratorWithProgress_iter (iterator_of uneven_loader None (Some 3))))
     = Some [batch_a, batch_b, batch_b] \<and>
   completion_of (EpochOrBatchIteratorWithProgress_iter (iterator_of uneven_loader (Some 3) None))
     = Some Returned \<and>
   map_option (map fst)
     (pairs_of (EpochOrBatchIteratorWithProgress_iter (iterator_of uneven_loader (Some 3) None)))
     = Some [batch_a, batch_b, batch_b, batch_a, batch_a, batch_b, batch_a]"
proof -
  have N: "(0::int) < 3" by simp
  note t = iter_yields_target[OF N, where dl = uneven_loader and bss = uneven_passes
      and isatty = "Inr True" and tq = None
      and oe = "Some ''on_epoch_end''" and ob = None
      and self = "iterator_of uneven_loader None (Some 3)" and k = 2
      and self' = "iterator_of uneven_loader (Some 3) None"]
  have c: "\<forall>j < 2. begins_with (uneven_loader j) (uneven_passes j) \<and>
      (length (uneven_passes j) < nat 3 \<longrightarrow> is_pass (uneven_loader j) (uneven_passes j))"
    by (simp add: uneven_loader_def is_pass_loader_of is_pass_begins_with)
  have b: "list_all (\<lambda>p. p \<noteq> []) (passes uneven_passes 2)"
    "nat 3 \<le> length (concat (passes uneven_passes 2))"
    "list_all good_batch (take (nat 3) (concat (passes uneven_passes 2)))"
    by (simp_all add: passes_uneven_2 good_batch_a good_batch_b)
  have c': "\<forall>j < nat 3. is_pass (uneven_loader j) (uneven_passes j)"
    by (simp add: uneven_loader_def is_pass_loader_of)
  have e: "list_all good_pass (passes uneven_passes (nat 3))"
    by (simp add: passes_uneven_3 good_pass_def good_batch_a good_batch_b)
  from t[THEN conjunct1, THEN mp, THEN mp, THEN mp, THEN mp, THEN mp, OF init_iterator_of c b]
       t[THEN conjunct2, THEN mp, THEN mp, THEN mp, OF init_iterator_of c' e]
  show ?thesis by (simp add: passes_uneven_2 passes_uneven_3)
qed

text \<open>
  Without the proviso the claim fails: a loader whose second pass is empty, asked for two
  batches, yields one pair and then raises \<open>AssertionError\<close>.
\<close>

theorem iter_yields_target_counterexample:
  "EpochOrBatchIteratorWithProgress_init (Inr True) drained_loader None (Some 2) None
       (Some ''on_epoch_end'') None = Inr (iterator_of drained_loader None (Some 2)) \<and>
   completion_of (EpochOrBatchIteratorWithProgress_iter (iterator_of drained_loader None (Some 2)))
     = Some (Raised AssertionError) \<and>
   map_option length
     (pairs_of (EpochOrBatchIteratorWithProgress_iter (iterator_of drained_loader None (Some 2))))
     = Some 1"
proof (intro conjI)
  show "EpochOrBatchIteratorWithProgress_init (Inr True) drained_loader None (Some 2) None
       (Some ''on_epoch_end'') None = Inr (iterator_of drained_loader None (Some 2))"
    by (simp add: init_iterator_of)
  show "completion_of (EpochOrBatchIteratorWithProgress_iter (iterator_of drained_loader None (Some 2)))
     = Some (Raised AssertionError)"
    by (simp add: iter_eval drained_loader_def drained_passes_def batch_a_def)
  show "map_option length
     (pairs_of (EpochOrBatchIteratorWithProgress_iter (iterator_of drained_loader None (Some 2))))
     = Some 1"
    by (simp add: iter_eval drained_loader_def drained_passes_def batch_a_def)
qed

subsection \<open>C2: the shaped reward\<close>

text \<open>
  Claim C2.  On a batch whose tensors all have the batch size of \<open>state\<close>, and on which the
  base net returns \<open>r\<close>, \<open>ShapedRewardNet.forward\<close> returns, transition by transition,
  \<open>r + discount_factor * (1 - done) * potential(next_state) - potential(state)\<close>; when \<open>done\<close>
  is all ones this is \<open>r - potential(state)\<close>, and when \<open>done\<close> is all zeros it is
  \<open>r + discount_factor * potential(next_state) - potential(state)\<close>.
\<close>

theorem ShapedRewardNet_forward_formula:
  assumes "forward (base self) state action next_state done = Inr r"
    and "length r = length state" and "length done = length state"
    and "length (potential self next_state) = length state"
    and "length (potential self state) = length state"
  shows "ShapedRewardNet_forward self state action next_state done =
           Inr (map (shaping_formula (discount_factor self))
                  (zip r (zip done (zip (potential self next_state) (potential self state))))) \<and>
         (list_all (\<lambda>d. d = 1) done \<longrightarrow>
            ShapedRewardNet_forward self state action next_state done =
              Inr (map2 (-) r (potential self state))) \<and>
         (list_all (\<lambda>d. d = 0) done \<longrightarrow>
            ShapedRewardNet_forward self state action next_state done =
              Inr (map (\<lambda>(r, pn, po). r + discount_factor self * pn - po)
                     (zip r (zip (potential self next_state) (potential self state)))))"
proof -
  let ?pn = "potential self next_state" and ?po = "potential self state"
  let ?g = "discount_factor self"
  have 1: "broadcast (*) (map (\<lambda>d. 1 - d) done) ?pn = Inr (map2 (*) (map (\<lambda>d. 1 - d) done) ?pn)"
    using assms by (intro broadcast_same) simp
  have 2: "broadcast (+) r (map (\<lambda>x. ?g * x) (map2 (*) (map (\<lambda>d. 1 - d) done) ?pn))
      = Inr (map2 (+) r (map (\<lambda>x. ?g * x) (map2 (*) (map (\<lambda>d. 1 - d) done) ?pn)))"
    using assms by (intro broadcast_same) simp
  have 3: "broadcast (-) (map2 (+) r (map (\<lambda>x. ?g * x) (map2 (*) (map (\<lambda>d. 1 - d) done) ?pn))) ?po
      = Inr (map2 (-) (map2 (+) r (map (\<lambda>x. ?g * x) (map2 (*) (map (\<lambda>d. 1 - d) done) ?pn))) ?po)"
    using assms by (intro broadcast_same) simp
  note pw = shaped_pointwise[OF assms(2-5), of ?g]
  have len: "length (map (shaping_formula ?g) (zip r (zip done (zip ?pn ?po)))) = length state"
    using assms(2-5) by simp
  have main: "ShapedRewardNet_forward self state action next_state done =
           Inr (map (shaping_formula ?g) (zip r (zip done (zip ?pn ?po))))"
    by (simp only: ShapedRewardNet_forward_def Let_def assms(1) sum.case 1 2 3 pw len if_True
        refl simp_thms)
  show ?thesis
    using main shaping_all_ones[OF assms(2-5), of ?g] shaping_all_zeros[OF assms(2-5), of ?g]
    by simp
qed

theorem ShapedRewardNet_forward_formula_witness:
  "ShapedRewardNet_forward example_shaped [1, 2] [3, 4] [5, 6] [1, 1] = Inr [2, 2] \<and>
   ShapedRewardNet_forward example_shaped [1, 2] [3, 4] [5, 6] [0, 0] = Inr [7, 8] \<and>
   ShapedRewardNet_forward example_shaped [1, 2] [3, 4] [5, 6] [0, 1] = Inr [7, 2]"
proof -
  have h: "forward (base example_shaped) [1, 2] [3, 4] [5, 6] d = Inr [4, 6]"
    "length [4, 6 :: real] = length [1, 2 :: nat]"
    "length (potential example_shaped [5, 6]) = length [1, 2 :: nat]"
    "length (potential example_shaped [1, 2]) = length [1, 2 :: nat]" for d
    by (simp_all add: example_shaped_simps)
  have d: "length [1, 1 :: real] = length [1, 2 :: nat]" "length [0, 0 :: real] = length [1, 2 :: nat]"
    "length [0, 1 :: real] = length [1, 2 :: nat]"
    by simp_all
  from ShapedRewardNet_forward_formula[OF h(1,2) d(1) h(3,4)]
    ShapedRewardNet_forward_formula[OF h(1,2) d(2) h(3,4)]
    ShapedRewardNet_forward_formula[OF h(1,2) d(3) h(3,4)]
  show ?thesis
    by (simp add: example_shaped_simps shaping_formula_def)
qed

subsection \<open>C3: the training loss\<close>

text \<open>
  Claim C3.  When the policy has parameters and \<open>evaluate_actions\<close> returns non-empty
  tensors \<open>log_prob\<close> and \<open>entropy\<close> on the batch, the loss that \<open>_calculate_loss\<close> returns is
  \<open>- mean log_prob - ent_weight * mean entropy + l2_weight * S / 2\<close>, \<open>S\<close> the sum over the
  parameter tensors of the sums of their squared entries; it is the loss that the update
  differentiates.
\<close>

theorem calculate_loss_decomposition:
  assumes "evaluate_actions env (policy self) obs acts = (log_prob, entropy)"
    and "log_prob \<noteq> []" and "entropy \<noteq> []" and "parameters env (policy self) \<noteq> []"
  shows "map_sum id fst (BC_calculate_loss env self obs acts) =
           Inr (- mean log_prob - ent_weight self * mean entropy
                + l2_weight self
                  * sum_list (map (\<lambda>w. sum_list (map (\<lambda>x. x ^ 2) w)) (parameters env (policy self)))
                  / 2) \<and>
         loss_of env self obs acts (policy self) =
           - mean log_prob - ent_weight self * mean entropy
           + l2_weight self
             * sum_list (map (\<lambda>w. sum_list (map (\<lambda>x. x ^ 2) w)) (parameters env (policy self)))
             / 2"
  using assms by (simp add: BC_calculate_loss_def loss_of_def Let_def)

theorem calculate_loss_decomposition_witness:
  "map_sum id fst (BC_calculate_loss example_torch example_BC [1, 3] [2, 4]) = Inr (29 / 2)"
proof -
  have h: "evaluate_actions example_torch (policy example_BC) [1, 3] [2, 4] = ([- 1, - 3], [2, 4])"
    "[- 1, - 3 :: real] \<noteq> []" "[2, 4 :: real] \<noteq> []"
    "parameters example_torch (policy example_BC) \<noteq> []"
    by (simp_all add: example_torch_def example_BC_def)
  have p: "parameters example_torch (policy example_BC) = [[1, 2], [3]]"
    "ent_weight example_BC = 1 / 2" "l2_weight example_BC = 2"
    by (simp_all add: example_torch_def example_BC_def)
  from calculate_loss_decomposition[OF h, THEN conjunct1] show ?thesis
    by (simp add: p mean_def)
qed

subsection \<open>C4: exactly one of the two targets\<close>

text \<open>
  Claim C4.  Constructing the iterator with both of \<open>n_epochs\<close> and \<open>n_batches\<close>, or with
  neither, raises \<open>ValueError\<close> (the specification's \<open>ConfigurationError\<close>); constructing it
  with exactly one of them succeeds.  The code does the first, and misses a case of the
  second: with \<open>use_tqdm\<close> left \<open>None\<close> it evaluates \<open>os.isatty(sys.stdout.fileno())\<close>, and
  where standard output has no file descriptor this raises \<open>io.UnsupportedOperation\<close>,
  though the docstring says of \<open>use_tqdm\<close> that it is true by default if stdout is a TTY.
  The theorem runs the constructor there: with exactly one target and \<open>use_tqdm\<close> left
  \<open>None\<close> it raises, in either mode; with \<open>use_tqdm\<close> given it succeeds; with both
  targets or neither it raises \<open>ValueError\<close>.
\<close>

theorem init_without_descriptor:
  "EpochOrBatchIteratorWithProgress_init (Inl UnsupportedOperation) uneven_loader None (Some 5) None
     (Some ''on_epoch_end'') None = Inl UnsupportedOperation \<and>
   EpochOrBatchIteratorWithProgress_init (Inl UnsupportedOperation) uneven_loader (Some 3) None None
     (Some ''on_epoch_end'') None = Inl UnsupportedOperation \<and>
   isl (EpochOrBatchIteratorWithProgress_init (Inl UnsupportedOperation) uneven_loader None (Some 5)
     (Some False) (Some ''on_epoch_end'') None) = False \<and>
   EpochOrBatchIteratorWithProgress_init (Inl UnsupportedOperation) uneven_loader (Some 3) (Some 5)
     None (Some ''on_epoch_end'') None = Inl ValueError \<and>
   EpochOrBatchIteratorWithProgress_init (Inl UnsupportedOperation) uneven_loader None None
     None (Some ''on_epoch_end'') None = Inl ValueError"
  by (simp add: EpochOrBatchIteratorWithProgress_init_def)

subsection \<open>C5: no weight decay among the optimizer arguments\<close>

text \<open>
  Claim C5.  When \<open>optimizer_kwargs\<close> has the key \<open>weight_decay\<close>, \<open>BC.__init__\<close> raises
  \<open>ValueError\<close> (the specification's \<open>ConfigurationError\<close>) before it constructs the policy,
  the optimizer, the scheduler or a data loader, whatever \<open>l2_weight\<close> is, zero or not.
\<close>

theorem weight_decay_rejected:
  assumes "''weight_decay'' \<in> set (map fst optimizer_kwargs)"
  shows "BC_init env obs_space act_space policy_cls policy_kws expert_data optimizer_cls
           (Some optimizer_kwargs) lr_scheduler_cls lr_scheduler_kwargs ent_w l2_w augmentation
           normalize_images_arg dev = ([], Inl ValueError)"
proof -
  from assms have "optimizer_kwargs \<noteq> []" by auto
  with assms show ?thesis by (simp add: BC_init_def)
qed

theorem weight_decay_rejected_witness:
  "''weight_decay'' \<in> set (map fst [(''eps'', ()), (''weight_decay'', ())]) \<and>
   BC_init example_torch () () example_policy_class None None example_optimizer_cls
     (Some [(''eps'', ()), (''weight_decay'', ())]) None None (1 / 1000) (1 / 10) None True ()
     = ([], Inl ValueError)"
proof -
  have h: "''weight_decay'' \<in> set (map fst [(''eps'', ()), (''weight_decay'', ())])" by simp
  from weight_decay_rejected[OF h] h show ?thesis by simp
qed

subsection \<open>C6: a pass without a batch\<close>

text \<open>
  Claim C6 (amended).  On every data loader, a pass that the iteration begins and in which
  the loader yields no batch is the last pass begun, and the iteration ends there by
  raising \<open>AssertionError\<close>: it neither goes on to another pass nor returns.  When the
  passes before pass \<open>k\<close> end, are well-formed and do not reach the target, the iteration
  does begin pass \<open>k\<close>, so that if pass \<open>k\<close> is empty the pairs yielded are those of the
  passes before and the assertion is raised.  The iteration ends when a pass is empty and
  the passes before it each end; it ends in batch mode on every data loader; and it ends in
  either mode when each of the first \<open>max 1 N\<close> passes ends, \<open>N\<close> the target.  It does not
  end on every data loader.
\<close>

theorem empty_pass_raises:
  "(begun_of (EpochOrBatchIteratorWithProgress_iter self) = Some n \<longrightarrow> j < n \<longrightarrow>
    data_loader self j 0 = None \<longrightarrow>
      completion_of (EpochOrBatchIteratorWithProgress_iter self) = Some (Raised AssertionError) \<and>
      n = Suc j) \<and>
   ((\<forall>j < k. is_pass (data_loader self j) (bss j)) \<longrightarrow> list_all good_pass (passes bss k) \<longrightarrow>
    data_loader self k 0 = None \<longrightarrow> reaches_pass self bss k \<longrightarrow>
      completion_of (EpochOrBatchIteratorWithProgress_iter self) = Some (Raised AssertionError) \<and>
      map_option (map fst) (pairs_of (EpochOrBatchIteratorWithProgress_iter self))
        = Some (concat (passes bss k))) \<and>
   ((\<forall>j < k. \<exists>bs. is_pass (data_loader self j) bs) \<longrightarrow> data_loader self k 0 = None \<longrightarrow>
      EpochOrBatchIteratorWithProgress_iter self \<noteq> None) \<and>
   (\<not> use_epochs self \<longrightarrow> EpochOrBatchIteratorWithProgress_iter self \<noteq> None) \<and>
   ((\<forall>j < max 1 (remaining self initial_locals). \<exists>bs. is_pass (data_loader self j) bs) \<longrightarrow>
      EpochOrBatchIteratorWithProgress_iter self \<noteq> None)"
proof (intro conjI impI)
  assume b: "begun_of (EpochOrBatchIteratorWithProgress_iter self) = Some n"
    and j: "j < n" "data_loader self j 0 = None"
  from b obtain evs c where i: "EpochOrBatchIteratorWithProgress_iter self = Some (evs, c)"
    and n: "n = passes_begun evs"
    by (auto simp: begun_of_def)
  from iter_Some[OF i] obtain evs' where
    w: "while_True self exhaust (data_loader self) initial_locals () = Some (evs', (), c)"
    and pb: "passes_begun evs = passes_begun evs'" by auto
  from while_True_empty_pass_begun[OF w] j n pb
  have "c = Raised AssertionError \<and> passes_begun evs' = Suc j" by simp
  with i n pb show "completion_of (EpochOrBatchIteratorWithProgress_iter self) = Some (Raised AssertionError)"
    and "n = Suc j"
    by (simp_all add: completion_of_def)
next
  assume c: "\<forall>j < k. is_pass (data_loader self j) (bss j)"
    and p: "list_all good_pass (passes bss k)" "data_loader self k 0 = None"
    and r: "reaches_pass self bss k"
  from r have "reaches_pass_from self bss initial_locals k"
    by (simp only: reaches_pass_initial)
  from while_True_raises[OF c p this, of "()"]
  obtain evs where
    w: "while_True self exhaust (data_loader self) initial_locals () = Some (evs, (), Raised AssertionError)"
    and ys: "map fst (yielded evs) = concat (passes bss k)" by auto
  show "completion_of (EpochOrBatchIteratorWithProgress_iter self) = Some (Raised AssertionError)"
    by (rule iter_of_while(1)[OF w])
  show "map_option (map fst) (pairs_of (EpochOrBatchIteratorWithProgress_iter self))
        = Some (concat (passes bss k))"
    by (simp add: iter_of_while(2)[OF w] ys)
next
  assume "\<forall>j < k. \<exists>bs. is_pass (data_loader self j) bs" "data_loader self k 0 = None"
  then show "EpochOrBatchIteratorWithProgress_iter self \<noteq> None"
    unfolding iter_None by (rule while_True_ends_at_empty)
next
  assume "\<not> use_epochs self"
  then show "EpochOrBatchIteratorWithProgress_iter self \<noteq> None"
    unfolding iter_None by (intro while_True_ends) simp
next
  assume "\<forall>j < max 1 (remaining self initial_locals). \<exists>bs. is_pass (data_loader self j) bs"
  then show "EpochOrBatchIteratorWithProgress_iter self \<noteq> None"
    unfolding iter_None by (intro while_True_ends) simp
qed

theorem empty_pass_raises_witness:
  "begun_of (EpochOrBatchIteratorWithProgress_iter (iterator_of drained_loader (Some 5) None)) = Some 2 \<and>
   completion_of (EpochOrBatchIteratorWithProgress_iter (iterator_of drained_loader (Some 5) None))
     = Some (Raised AssertionError) \<and>
   map_option (map fst) (pairs_of (EpochOrBatchIteratorWithProgress_iter
     (iterator_of drained_loader (Some 5) None))) = Some [batch_a] \<and>
   EpochOrBatchIteratorWithProgress_iter (iterator_of drained_loader (Some 5) None) \<noteq> None \<and>
   EpochOrBatchIteratorWithProgress_iter (iterator_of endless_loader None (Some 2)) \<noteq> None \<and>
   EpochOrBatchIteratorWithProgress_iter (iterator_of uneven_loader (Some 2) None) \<noteq> None"
proof -
  let ?it = "iterator_of drained_loader (Some 5) None"
  have b: "begun_of (EpochOrBatchIteratorWithProgress_iter ?it) = Some 2"
    by (simp add: begun_of_def iter_eval drained_loader_def drained_passes_def batch_a_def)
  have e: "data_loader ?it 1 0 = None"
    by (simp add: iterator_of_def drained_loader_def drained_passes_def loader_of_def pass_of_def)
  have c: "\<forall>j < 1. is_pass (data_loader ?it j) (drained_passes j)"
    by (simp add: iterator_of_def drained_loader_def is_pass_loader_of)
  have c': "\<forall>j < 1. \<exists>bs. is_pass (data_loader ?it j) bs"
    using c by blast
  have p: "list_all good_pass (passes drained_passes 1)" "reaches_pass ?it drained_passes 1"
    by (simp_all add: iterator_of_def passes_def drained_passes_def good_pass_def good_batch_a
        reaches_pass_def)
  have m: "\<not> use_epochs (iterator_of endless_loader None (Some 2))"
    by (simp add: iterator_of_def)
  have f: "\<forall>j < max 1 (remaining (iterator_of uneven_loader (Some 2) None) initial_locals).
      \<exists>bs. is_pass (data_loader (iterator_of uneven_loader (Some 2) None) j) bs"
    using is_pass_loader_of[of uneven_passes] by (auto simp: iterator_of_def uneven_loader_def)
  have one: "(1::nat) < 2" by simp
  from b empty_pass_raises[where self = ?it and j = 1 and n = 2, THEN conjunct1, THEN mp, THEN mp,
      THEN mp, OF b one e]
    empty_pass_raises[where self = ?it and k = 1 and bss = drained_passes, THEN conjunct2,
      THEN conjunct1, THEN mp, THEN mp, THEN mp, THEN mp, OF c p(1) e p(2)]
    empty_pass_raises[where self = ?it and k = 1, THEN conjunct2, THEN conjunct2,
      THEN conjunct1, THEN mp, THEN mp, OF c' e]
    empty_pass_raises[where self = "iterator_of endless_loader None (Some 2)",
      THEN conjunct2, THEN conjunct2, THEN conjunct2, THEN conjunct1, THEN mp, OF m]
    empty_pass_raises[where self = "iterator_of uneven_loader (Some 2) None",
      THEN conjunct2, THEN conjunct2, THEN conjunct2, THEN conjunct2, THEN mp, OF f]
  show ?thesis
    by (simp add: passes_def drained_passes_def del: not_None_eq)
qed

text \<open>
  As stated, with the iterator terminating on every data source, the claim fails: in epoch
  mode a pass that never ends keeps the iteration in it, yielding without end.
\<close>

theorem empty_pass_raises_counterexample:
  "EpochOrBatchIteratorWithProgress_init (Inr True) endless_loader (Some 1) None None
       (Some ''on_epoch_end'') None = Inr (iterator_of endless_loader (Some 1) None) \<and>
   EpochOrBatchIteratorWithProgress_iter (iterator_of endless_loader (Some 1) None) = None"
proof
  show "EpochOrBatchIteratorWithProgress_init (Inr True) endless_loader (Some 1) None None
       (Some ''on_epoch_end'') None = Inr (iterator_of endless_loader (Some 1) None)"
    by (simp add: init_iterator_of)
  have "while_True (iterator_of endless_loader (Some 1) None) exhaust endless_loader initial_locals ()
          = None"
    by (rule while_True_endless)
       (simp_all add: iterator_of_def endless_loader_def exhaust_def good_batch_a good_batch_b)
  then show "EpochOrBatchIteratorWithProgress_iter (iterator_of endless_loader (Some 1) None) = None"
    by (simp add: iter_None iterator_of_def)
qed

subsection \<open>C7: the input width of the reward MLP\<close>

text \<open>
  Claim C7.  Whatever the four flags and the other keyword arguments, the \<open>in_size\<close> that
  \<open>BasicRewardNet.__init__\<close> passes to \<open>build_mlp\<close> is the sum of the flattened dimensions
  of the enabled components: the observation space's for \<open>state\<close> and for \<open>next_state\<close>, the
  action space's for \<open>action\<close>, and 1 for \<open>done\<close>.  With a single component enabled it is
  that component's dimension.
\<close>

theorem BasicRewardNet_in_size:
  "BasicRewardNet_init build_mlp gfd obs_space act_space us ua un ud kwargs =
     (case build_mlp (full_build_mlp_kwargs gfd obs_space act_space us ua un ud kwargs) of
        Inl e \<Rightarrow> Inl e
      | Inr m \<Rightarrow>
          Inr \<lparr>observation_space = obs_space, action_space = act_space, normalize_images = True,
               use_state = us, use_action = ua, use_next_state = un, use_done = ud, mlp = m\<rparr>) \<and>
   full_build_mlp_kwargs gfd obs_space act_space us ua un ud kwargs ''in_size'' =
     Some (IntV ((if us then gfd obs_space else 0) + (if ua then gfd act_space else 0) +
                 (if un then gfd obs_space else 0) + (if ud then 1 else 0))) \<and>
   full_build_mlp_kwargs gfd obs_space act_space True False False False kwargs ''in_size'' =
     Some (IntV (gfd obs_space)) \<and>
   full_build_mlp_kwargs gfd obs_space act_space False True False False kwargs ''in_size'' =
     Some (IntV (gfd act_space)) \<and>
   full_build_mlp_kwargs gfd obs_space act_space False False True False kwargs ''in_size'' =
     Some (IntV (gfd obs_space)) \<and>
   full_build_mlp_kwargs gfd obs_space act_space False False False True kwargs ''in_size'' =
     Some (IntV 1)"
  by (simp add: BasicRewardNet_init_def full_build_mlp_kwargs_def)

theorem BasicRewardNet_in_size_witness:
  "full_build_mlp_kwargs example_dim 4 2 True True False True
     [''in_size'' \<mapsto> IntV 99, ''hid_sizes'' \<mapsto> TupleV [8]] ''in_size'' = Some (IntV 7) \<and>
   full_build_mlp_kwargs example_dim 4 2 True True True True Map.empty ''in_size'' = Some (IntV 11) \<and>
   full_build_mlp_kwargs example_dim 4 2 False False False False Map.empty ''in_size'' = Some (IntV 0)"
  using BasicRewardNet_in_size[of "\<lambda>kw. Inr kw" example_dim 4 2 True True False True
      "[''in_size'' \<mapsto> IntV 99, ''hid_sizes'' \<mapsto> TupleV [8]]"]
    BasicRewardNet_in_size[of "\<lambda>kw. Inr kw" example_dim 4 2 True True True True Map.empty]
    BasicRewardNet_in_size[of "\<lambda>kw. Inr kw" example_dim 4 2 False False False False Map.empty]
  by (simp add: example_dim_def)

subsection \<open>C8: the normalized net passes forward through\<close>

text \<open>
  Claim C8.  \<open>NormalizedRewardNet.forward\<close> returns what the base net's \<open>forward\<close> returns on
  the same inputs, whatever the normalization layer; the layer is applied by
  \<open>predict_processed\<close>, to the base net's prediction.
\<close>

theorem NormalizedRewardNet_forward_passthrough:
  "NormalizedRewardNet_forward self state action next_state done =
     forward (base self) state action next_state done \<and>
   NormalizedRewardNet_forward (self\<lparr>rew_normalize_layer := layer\<rparr>) state action next_state done =
     NormalizedRewardNet_forward self state action next_state done \<and>
   NormalizedRewardNet_predict_processed pp (self\<lparr>rew_normalize_layer := Some f\<rparr>)
       state action next_state raw_done =
     (case RewardNet_predict pp (base self) state action next_state raw_done of
        Inl e \<Rightarrow> Inl e
      | Inr rew \<Rightarrow> if length (f rew) = length state then Inr (f rew) else Inl AssertionError)"
  by (simp add: NormalizedRewardNet_forward_def NormalizedRewardNet_predict_processed_def Let_def
      split: sum.splits)

theorem NormalizedRewardNet_forward_passthrough_witness:
  "NormalizedRewardNet_forward example_normalized [1, 2] [3, 4] [5, 6] [0, 1] = Inr [4, 6] \<and>
   NormalizedRewardNet_predict_processed example_preprocessing example_normalized
     [1, 2] [3, 4] [5, 6] [False, True] = Inr [2, 3]"
proof -
  have e: "example_normalized = example_normalized\<lparr>rew_normalize_layer := Some (map (\<lambda>x. x / 2))\<rparr>"
    by (simp add: example_normalized_def NormalizedRewardNet_init_def)
  have b: "base example_normalized = example_base"
    by (simp add: example_normalized_def NormalizedRewardNet_init_def)
  have p: "RewardNet_predict example_preprocessing example_base [1, 2] [3, 4] [5, 6] [False, True]
      = Inr [4, 6]"
    by (simp add: RewardNet_predict_def RewardNet_preprocess_def example_preprocessing_def
        example_base_def)
  from NormalizedRewardNet_forward_passthrough[of example_normalized "[1, 2]" "[3, 4]" "[5, 6]"
      "[0, 1]" "Some (map (\<lambda>x. x / 2))" example_preprocessing "map (\<lambda>x. x / 2)" "[False, True]"]
  show ?thesis
    unfolding e[symmetric] b p by (simp add: example_base_def)
qed

subsection \<open>C9: the unused constructor argument\<close>

text \<open>
  Claim C9.  The constructor does not look at its argument \<open>normalize_images\<close>: two calls
  that differ only in it make the same constructor calls and give the same trainer, so
  that training is the same after them.  And \<open>train\<close> calls \<open>preprocess_obs\<close> with
  \<open>normalize_images=True\<close> only: it does the same when \<open>preprocess_obs\<close> is replaced by
  its restriction to \<open>normalize_images=True\<close>.
\<close>

theorem normalize_images_ignored:
  "BC_init env obs_space act_space policy_cls policy_kws expert_data optimizer_cls
     optimizer_kwargs lr_scheduler_cls lr_scheduler_kwargs ent_w l2_w augmentation ni dev =
   BC_init env obs_space act_space policy_cls policy_kws expert_data optimizer_cls
     optimizer_kwargs lr_scheduler_cls lr_scheduler_kwargs ent_w l2_w augmentation ni' dev \<and>
   BC_train (always_normalizing env) tty self ne nb oe ob li = BC_train env tty self ne nb oe ob li"
  by (simp add: BC_init_def BC_train_always_normalizing)

theorem normalize_images_ignored_witness:
  "BC_init example_torch () () example_policy_class None (Some (Transitions [1, 2]))
     example_optimizer_cls None None None (1 / 1000) 0 None True () =
   BC_init example_torch () () example_policy_class None (Some (Transitions [1, 2]))
     example_optimizer_cls None None None (1 / 1000) 0 None False ()"
  by (rule normalize_images_ignored[THEN conjunct1])

subsection \<open>C10: a target of zero batches\<close>

text \<open>
  Claim C10 (amended).  In batch-count mode the target is compared only after a batch has
  been yielded: an iterator constructed with \<open>n_batches = 0\<close> on a data loader whose first
  pass begins with a batch of non-empty \<open>obs\<close> yields exactly one pair, that batch, and
  returns.
\<close>

theorem zero_batches_yields_one:
  assumes "EpochOrBatchIteratorWithProgress_init isatty dl None (Some 0) tq oe ob = Inr self"
    and "dl 0 0 = Some b" and "good_batch b"
  shows "completion_of (EpochOrBatchIteratorWithProgress_iter self) = Some Returned \<and>
         map_option (map fst) (pairs_of (EpochOrBatchIteratorWithProgress_iter self)) = Some [b] \<and>
         map_option length (pairs_of (EpochOrBatchIteratorWithProgress_iter self)) = Some 1"
proof -
  have m: "1 = max 1 (nat (0 - batch_num initial_locals))"
    by (simp add: initial_locals_def)
  have p: "passes (\<lambda>j. [b]) (Suc 0) = [[b]]" by (simp add: passes_def)
  have c: "\<forall>j < Suc 0. begins_with (dl j) [b] \<and> (length [b] < 1 \<longrightarrow> is_pass (dl j) [b])"
    using assms(2) by simp
  have "list_all (\<lambda>p. p \<noteq> []) (passes (\<lambda>j. [b]) (Suc 0))"
    "1 \<le> length (concat (passes (\<lambda>j. [b]) (Suc 0)))"
    "list_all good_batch (take 1 (concat (passes (\<lambda>j. [b]) (Suc 0))))"
    using assms(3) by (simp_all add: p)
  from while_True_batches[OF init_batches(1,2)[OF assms(1)] m c this, of "()"]
  obtain evs where w: "while_True self exhaust dl initial_locals () = Some (evs, (), Returned)"
    and ys: "map fst (yielded evs) = [b]" by (auto simp: p)
  from w have w': "while_True self exhaust (data_loader self) initial_locals () = Some (evs, (), Returned)"
    by (simp add: init_batches(3)[OF assms(1)])
  from ys have "length (map fst (yielded evs)) = length [b]" by (rule arg_cong)
  then have "length (yielded evs) = 1" by simp
  with ys show ?thesis
    by (simp add: iter_of_while[OF w'])
qed

theorem zero_batches_yields_one_witness:
  "uneven_loader 0 0 = Some batch_a \<and> good_batch batch_a \<and>
   completion_of (EpochOrBatchIteratorWithProgress_iter (iterator_of uneven_loader None (Some 0)))
     = Some Returned \<and>
   map_option (map fst) (pairs_of (EpochOrBatchIteratorWithProgress_iter
     (iterator_of uneven_loader None (Some 0)))) = Some [batch_a] \<and>
   map_option length (pairs_of (EpochOrBatchIteratorWithProgress_iter
     (iterator_of uneven_loader None (Some 0)))) = Some 1"
proof -
  have i: "EpochOrBatchIteratorWithProgress_init (Inr True) uneven_loader None (Some 0) None
     (Some ''on_epoch_end'') None = Inr (iterator_of uneven_loader None (Some 0))"
    by (simp add: init_iterator_of)
  have d: "uneven_loader 0 0 = Some batch_a"
    by (simp add: uneven_loader_def loader_of_def pass_of_def uneven_passes_def)
  from zero_batches_yields_one[OF i d good_batch_a] d good_batch_a show ?thesis by simp
qed

text \<open>
  As stated, for every data loader whose first pass yields a batch, the claim fails when
  that batch has no sample: the assertion on the batch size raises before the first
  \<open>yield\<close>, and no pair is yielded.
\<close>

theorem zero_batches_yields_one_counterexample:
  "hollow_loader 0 0 \<noteq> None \<and>
   map_option length (pairs_of (EpochOrBatchIteratorWithProgress_iter
     (iterator_of hollow_loader None (Some 0)))) = Some 0 \<and>
   completion_of (EpochOrBatchIteratorWithProgress_iter (iterator_of hollow_loader None (Some 0)))
     = Some (Raised AssertionError)"
proof (intro conjI)
  show "hollow_loader 0 0 \<noteq> None" by (simp add: hollow_loader_def loader_of_def pass_of_def)
  show "map_option length (pairs_of (EpochOrBatchIteratorWithProgress_iter
     (iterator_of hollow_loader None (Some 0)))) = Some 0"
    by (simp add: iter_eval hollow_loader_def batch_without_samples_def)
  show "completion_of (EpochOrBatchIteratorWithProgress_iter (iterator_of hollow_loader None (Some 0)))
     = Some (Raised AssertionError)"
    by (simp add: iter_eval hollow_loader_def batch_without_samples_def)
qed

end
